theory Spec2Isabelle
  imports Main
begin

section \<open>Characters and decimal rendering used by the C and shell code\<close>

definition newline :: char where
  "newline = CHR 0x0A"

definition backslash :: char where
  "backslash = CHR 0x5C"

text \<open>The \<^verbatim>\<open>%d\<close> conversion of \<^verbatim>\<open>printf\<close> and the shell's \<^verbatim>\<open>$N\<close> for a number.\<close>

definition digit_char :: "nat \<Rightarrow> char" where
  "digit_char d = ''0123456789'' ! d"

fun dec_nat :: "nat \<Rightarrow> string" where
  "dec_nat n = (if n < 10 then [digit_char n] else dec_nat (n div 10) @ [digit_char (n mod 10)])"

declare dec_nat.simps [simp del]

definition dec_int :: "int \<Rightarrow> string" where
  "dec_int i = (if i < 0 then CHR ''-'' # dec_nat (nat (- i)) else dec_nat (nat i))"

definition is_digit :: "char \<Rightarrow> bool" where
  "is_digit c = (c \<in> set ''0123456789'')"

section \<open>Logging facility (include/logger.h)\<close>

text \<open>
  \<^verbatim>\<open>enum class LogLevel\<close> has underlying type \<^verbatim>\<open>int\<close>; a value outside the six
  enumerators can be made by a cast, and \<^verbatim>\<open>level < minLevel\<close> compares the underlying
  integers. The level is therefore an integer with six named values.
\<close>

type_synonym LogLevel = int

definition LVL_TRACE :: LogLevel where "LVL_TRACE = 0"
definition LVL_DEBUG :: LogLevel where "LVL_DEBUG = 1"
definition LVL_INFO :: LogLevel where "LVL_INFO = 2"
definition LVL_WARN :: LogLevel where "LVL_WARN = 3"
definition LVL_ERROR :: LogLevel where "LVL_ERROR = 4"
definition LVL_FATAL :: LogLevel where "LVL_FATAL = 5"

text \<open>
  The logger object: the fields \<^verbatim>\<open>minLevel_\<close> and \<^verbatim>\<open>output_\<close> (a name cannot end in an
  underscore here, so they are \<open>minLevel\<close> and \<open>sink\<close>). The sink is the text written to the
  file so far.
\<close>

record Logger =
  minLevel :: LogLevel
  sink :: string

definition Logger_init :: "string \<Rightarrow> Logger" where
  "Logger_init stdout = \<lparr>minLevel = LVL_DEBUG, sink = stdout\<rparr>"

definition setLevel :: "Logger \<Rightarrow> LogLevel \<Rightarrow> Logger" where
  "setLevel lg level = lg\<lparr>minLevel := level\<rparr>"

definition setOutput :: "Logger \<Rightarrow> string \<Rightarrow> Logger" where
  "setOutput lg file = lg\<lparr>sink := file\<rparr>"

definition levelToString :: "LogLevel \<Rightarrow> string" where
  "levelToString level =
     (if level = LVL_TRACE then ''TRACE''
      else if level = LVL_DEBUG then ''DEBUG''
      else if level = LVL_INFO then ''INFO ''
      else if level = LVL_WARN then ''WARN ''
      else if level = LVL_ERROR then ''ERROR''
      else if level = LVL_FATAL then ''FATAL''
      else ''?????'')"

text \<open>
  The broken-down local time that \<^verbatim>\<open>localtime(time(nullptr))\<close> hands to \<^verbatim>\<open>strftime\<close>;
  the clock is outside the program, so the value is an argument of the model.
\<close>

record tm =
  tm_sec :: int
  tm_min :: int
  tm_hour :: int
  tm_mday :: int
  tm_mon :: int
  tm_year :: int

text \<open>The two-digit conversions \<^verbatim>\<open>%m %d %H %M %S\<close> pad with a zero.\<close>

definition pad2 :: "int \<Rightarrow> string" where
  "pad2 i = (if 0 \<le> i \<and> i < 10 then CHR ''0'' # dec_int i else dec_int i)"

text \<open>\<^verbatim>\<open>strftime(buffer, size, "%Y-%m-%d %H:%M:%S", tm_info)\<close>.\<close>

definition getTimestamp :: "tm \<Rightarrow> string" where
  "getTimestamp t =
     dec_int (tm_year t + 1900) @ ''-'' @ pad2 (tm_mon t + 1) @ ''-'' @ pad2 (tm_mday t)
       @ '' '' @ pad2 (tm_hour t) @ '':'' @ pad2 (tm_min t) @ '':'' @ pad2 (tm_sec t)"

text \<open>
  \<^verbatim>\<open>strrchr\<close>: the pointer to the last occurrence of the character, as the rest of the
  string from that position on; \<^verbatim>\<open>None\<close> is the null pointer.
\<close>

fun strrchr :: "string \<Rightarrow> char \<Rightarrow> string option" where
  "strrchr [] c = None"
| "strrchr (x # xs) c =
     (case strrchr xs c of
        Some r \<Rightarrow> Some r
      | None \<Rightarrow> if x = c then Some (x # xs) else None)"

definition getFilename :: "string \<Rightarrow> string" where
  "getFilename path =
     (case strrchr path CHR ''/'' of
        Some slash \<Rightarrow> tl slash
      | None \<Rightarrow>
          (case strrchr path backslash of
             Some bslash \<Rightarrow> tl bslash
           | None \<Rightarrow> path))"

text \<open>
  The part of a string after the last occurrence of a character, in the words of the
  specification ("path prefix stripped"); the whole string when the character is not in it.
\<close>

definition after_last :: "char \<Rightarrow> string \<Rightarrow> string" where
  "after_last c s = rev (takeWhile (\<lambda>x. x \<noteq> c) (rev s))"

text \<open>
  \<^verbatim>\<open>Logger::log\<close>. The argument \<open>message\<close> is the text that \<^verbatim>\<open>vfprintf\<close> makes of the
  format string and its arguments. The three writes go to the sink one after the other.
\<close>

definition log :: "Logger \<Rightarrow> tm \<Rightarrow> LogLevel \<Rightarrow> string \<Rightarrow> string \<Rightarrow> int \<Rightarrow> string \<Rightarrow> Logger" where
  "log lg now level func file line message =
     (if level < minLevel lg then lg
      else
        (let timestamp = getTimestamp now;
             filename = getFilename file;
             header = timestamp @ '' '' @ levelToString level @ '' ['' @ func @ ''] [''
                        @ filename @ '':'' @ dec_int line @ ''] : ''
         in lg\<lparr>sink := sink lg @ header @ message @ [newline]\<rparr>))"

text \<open>The text one call adds to the sink.\<close>

definition written :: "Logger \<Rightarrow> Logger \<Rightarrow> string" where
  "written before after = drop (length (sink before)) (sink after)"

text \<open>The number of newline-terminated lines in a text.\<close>

definition lines_written :: "string \<Rightarrow> nat" where
  "lines_written s = count_list s newline"

text \<open>
  The layout \<^verbatim>\<open>YYYY-MM-DD HH:MM:SS\<close> as a pattern: \<^verbatim>\<open>d\<close> stands for a decimal digit,
  every other character for itself.
\<close>

definition matches :: "string \<Rightarrow> string \<Rightarrow> bool" where
  "matches pattern s = list_all2 (\<lambda>p c. if p = CHR ''d'' then is_digit c else c = p) pattern s"

text \<open>The values \<^verbatim>\<open>localtime\<close> returns for a date with a four-digit year.\<close>

definition calendar_tm :: "tm \<Rightarrow> bool" where
  "calendar_tm t =
     (0 \<le> tm_sec t \<and> tm_sec t \<le> 60 \<and> 0 \<le> tm_min t \<and> tm_min t \<le> 59
      \<and> 0 \<le> tm_hour t \<and> tm_hour t \<le> 23 \<and> 1 \<le> tm_mday t \<and> tm_mday t \<le> 31
      \<and> 0 \<le> tm_mon t \<and> tm_mon t \<le> 11
      \<and> 1000 \<le> tm_year t + 1900 \<and> tm_year t + 1900 \<le> 9999)"

text \<open>
  The reading of "left-padded to 5 characters" as padding on the left, and the padding on
  the right that the labels of the source have; the names are the six severities of the
  specification.
\<close>

definition left_pad :: "nat \<Rightarrow> string \<Rightarrow> string" where
  "left_pad n s = replicate (n - length s) CHR '' '' @ s"

definition right_pad :: "nat \<Rightarrow> string \<Rightarrow> string" where
  "right_pad n s = s @ replicate (n - length s) CHR '' ''"

definition severities :: "(LogLevel \<times> string) list" where
  "severities =
     [(LVL_TRACE, ''TRACE''), (LVL_DEBUG, ''DEBUG''), (LVL_INFO, ''INFO''),
      (LVL_WARN, ''WARN''), (LVL_ERROR, ''ERROR''), (LVL_FATAL, ''FATAL'')]"

section \<open>The machine the scripts run on\<close>

text \<open>
  What the shell scripts and the Makefile ask of their surroundings: which programs the
  shell finds (\<^verbatim>\<open>command -v\<close>, and running a command), the exit status of a program that
  was found, which paths are regular files (\<^verbatim>\<open>[ -f path ]\<close>), and the files that
  \<^verbatim>\<open>$(wildcard src/*.cpp)\<close> expands to.
\<close>

record machine =
  installed :: "string list"
  status :: "string list \<Rightarrow> nat"
  regular_file :: "string \<Rightarrow> bool"
  wildcard_src :: "string list"

definition command_v :: "machine \<Rightarrow> string \<Rightarrow> bool" where
  "command_v m prog = (prog \<in> set (installed m))"

text \<open>Running a command line: the shell reports 127 for a program it does not find.\<close>

definition sh_exec :: "machine \<Rightarrow> string list \<Rightarrow> nat" where
  "sh_exec m argv =
     (case argv of
        [] \<Rightarrow> 0
      | prog # args \<Rightarrow> if command_v m prog then status m argv else 127)"

text \<open>
  What a script prints: \<^verbatim>\<open>echo\<close> with its argument, and \<^verbatim>\<open>echo -e\<close> with its argument
  as the shell passes it, before \<^verbatim>\<open>echo\<close> interprets the backslash sequences in it.
\<close>

datatype shell_output = Echo string | Echo_e string

definition RED :: string where "RED = backslash # ''033[0;31m''"
definition GREEN :: string where "GREEN = backslash # ''033[0;32m''"
definition YELLOW :: string where "YELLOW = backslash # ''033[1;33m''"
definition NC :: string where "NC = backslash # ''033[0m''"

section \<open>Build-variant resolver (Makefile)\<close>

text \<open>
  The variables an invocation of \<^verbatim>\<open>make\<close> receives from its command line or environment.
  \<^verbatim>\<open>BUILD_MODE\<close> may be unset (\<^verbatim>\<open>?=\<close> then gives it a value); an unset \<^verbatim>\<open>CROSS_ARCH\<close> is
  the empty string, and \<^verbatim>\<open>CPP\<close> is the words of its value (make's own \<^verbatim>\<open>$(CC) -E\<close> when
  nothing sets it). \<^verbatim>\<open>LIB_NAME\<close>, \<^verbatim>\<open>LDLIBS\<close> and \<^verbatim>\<open>HOST_LDFLAGS\<close> are set nowhere in the
  Makefile and \<^verbatim>\<open>LDFLAGS\<close> only appended to; they are taken as not inherited. A list of
  flags is the list of its words. \<^verbatim>\<open>CROSS_ARCH\<close> is taken to be one word or empty, as the
  supported tokens are: make and the shell split a value with blanks in it into several
  words, which \<open>CROSS_BINARY\<close>, \<open>rule_target\<close> and \<open>recipe\<close> below do not follow.
\<close>

record make_vars =
  BUILD_MODE_given :: "string option"
  CROSS_ARCH :: string
  CPP :: "string list"

definition PROJECT_NAME :: string where
  "PROJECT_NAME = ''firmware''"

definition BUILD_MODE :: "make_vars \<Rightarrow> string" where
  "BUILD_MODE v = (case BUILD_MODE_given v of None \<Rightarrow> ''debug'' | Some mode \<Rightarrow> mode)"

definition TARGET_BINARY :: string where
  "TARGET_BINARY = PROJECT_NAME @ ''.bin''"

definition HOST_BINARY :: string where
  "HOST_BINARY = ''program.bin''"

definition CROSS_BINARY :: "make_vars \<Rightarrow> string" where
  "CROSS_BINARY v = PROJECT_NAME @ ''_'' @ CROSS_ARCH v @ ''.bin''"

definition INCLUDES :: "string list" where
  "INCLUDES = [''-Iinclude'']"

definition LDFLAGS :: "string list" where
  "LDFLAGS = [''-Llib'']"

definition COMMON_FLAGS :: "string list" where
  "COMMON_FLAGS = [''-Wall'', ''-Wextra'', ''-Wpedantic'', ''-std=c++17'']"

definition DEBUG_FLAGS :: "string list" where
  "DEBUG_FLAGS = [''-g3'', ''-O0'', ''-DDEBUG'']"

definition RELEASE_FLAGS :: "string list" where
  "RELEASE_FLAGS = [''-O2'', ''-DNDEBUG'', ''-s'']"

definition CFLAGS :: "make_vars \<Rightarrow> string list" where
  "CFLAGS v =
     (if BUILD_MODE v = ''release'' then COMMON_FLAGS @ RELEASE_FLAGS
      else COMMON_FLAGS @ DEBUG_FLAGS)"

definition BUILD_TYPE :: "make_vars \<Rightarrow> string" where
  "BUILD_TYPE v = (if BUILD_MODE v = ''release'' then ''Release'' else ''Debug'')"

definition TARGET_CPP :: string where
  "TARGET_CPP = ''arm-linux-gnueabihf-g++''"

definition HOST_CPP :: string where
  "HOST_CPP = ''g++''"

text \<open>The three rules that build a file, and the goals that lead to them.\<close>

datatype rule = Target_binary_rule | Host_binary_rule | Cross_binary_rule

datatype goal =
    Goal_all | Goal_debug | Goal_release
  | Goal_host | Goal_host_debug | Goal_host_release | Goal_host_compile
  | Goal_cross_compile | Goal_cross_debug | Goal_cross_release

text \<open>
  A goal with a recipe \<^verbatim>\<open>$(MAKE) BUILD_MODE=... goal\<close> runs make again with the build mode
  set on the command line; the other goals have the file as prerequisite.
\<close>

fun resolve :: "goal \<Rightarrow> make_vars \<Rightarrow> make_vars \<times> rule" where
  "resolve Goal_all v = (v, Target_binary_rule)"
| "resolve Goal_debug v = (v\<lparr>BUILD_MODE_given := Some ''debug''\<rparr>, Target_binary_rule)"
| "resolve Goal_release v = (v\<lparr>BUILD_MODE_given := Some ''release''\<rparr>, Target_binary_rule)"
| "resolve Goal_host v = (v\<lparr>BUILD_MODE_given := Some ''debug''\<rparr>, Host_binary_rule)"
| "resolve Goal_host_debug v = (v\<lparr>BUILD_MODE_given := Some ''debug''\<rparr>, Host_binary_rule)"
| "resolve Goal_host_release v = (v\<lparr>BUILD_MODE_given := Some ''release''\<rparr>, Host_binary_rule)"
| "resolve Goal_host_compile v = (v, Host_binary_rule)"
| "resolve Goal_cross_compile v = (v, Cross_binary_rule)"
| "resolve Goal_cross_debug v = (v\<lparr>BUILD_MODE_given := Some ''debug''\<rparr>, Cross_binary_rule)"
| "resolve Goal_cross_release v = (v\<lparr>BUILD_MODE_given := Some ''release''\<rparr>, Cross_binary_rule)"

text \<open>The file a rule builds (\<^verbatim>\<open>$@\<close>).\<close>

fun rule_target :: "rule \<Rightarrow> make_vars \<Rightarrow> string" where
  "rule_target Target_binary_rule v = TARGET_BINARY"
| "rule_target Host_binary_rule v = HOST_BINARY"
| "rule_target Cross_binary_rule v = CROSS_BINARY v"

text \<open>The compiler command of each rule, as the words the shell runs.\<close>

fun recipe :: "rule \<Rightarrow> make_vars \<Rightarrow> string list \<Rightarrow> string list" where
  "recipe Target_binary_rule v PROJECT_SOURCES =
     [TARGET_CPP] @ CFLAGS v @ [''-DTARGET''] @ LDFLAGS @ [''-o'', TARGET_BINARY]
       @ PROJECT_SOURCES @ INCLUDES"
| "recipe Host_binary_rule v PROJECT_SOURCES =
     [HOST_CPP] @ CFLAGS v @ [''-DHOST''] @ [''-o'', HOST_BINARY]
       @ PROJECT_SOURCES @ INCLUDES"
| "recipe Cross_binary_rule v PROJECT_SOURCES =
     CPP v @ CFLAGS v @ [''-D'' @ CROSS_ARCH v] @ LDFLAGS @ [''-o'', CROSS_BINARY v]
       @ PROJECT_SOURCES @ INCLUDES"

text \<open>The artifact a goal produces and the compiler command it runs.\<close>

definition artifact :: "goal \<Rightarrow> make_vars \<Rightarrow> string" where
  "artifact g v = (case resolve g v of (v', r) \<Rightarrow> rule_target r v')"

definition compile_command :: "goal \<Rightarrow> make_vars \<Rightarrow> string list \<Rightarrow> string list" where
  "compile_command g v srcs = (case resolve g v of (v', r) \<Rightarrow> recipe r v' srcs)"

text \<open>
  \<^verbatim>\<open>make goal\<close> in a tree without the artifact: the recipe runs, and make's status is 0
  when the compiler's is and 2 otherwise. The \<^verbatim>\<open>echo\<close> lines of a recipe do not fail.
\<close>

definition make_cmd :: "machine \<Rightarrow> goal \<Rightarrow> make_vars \<Rightarrow> nat" where
  "make_cmd m g v = (if sh_exec m (compile_command g v (wildcard_src m)) = 0 then 0 else 2)"

text \<open>The architecture tokens that \<^verbatim>\<open>make help\<close> lists as supported values of \<^verbatim>\<open>CROSS_ARCH\<close>.\<close>

definition supported_archs :: "string list" where
  "supported_archs = [''arm64'', ''armhf'', ''armel'', ''riscv64'', ''amd64'', ''i386'']"

section \<open>Build verification harness (scripts/test_build.sh)\<close>

record harness =
  PASSED :: nat
  FAILED :: nat
  FAILED_ARCHS :: "string list"
  printed :: "shell_output list"

definition log_info :: "string \<Rightarrow> shell_output" where
  "log_info s = Echo_e (GREEN @ ''[INFO]'' @ NC @ '' '' @ s)"

definition log_warn :: "string \<Rightarrow> shell_output" where
  "log_warn s = Echo_e (YELLOW @ ''[WARN]'' @ NC @ '' '' @ s)"

definition log_error :: "string \<Rightarrow> shell_output" where
  "log_error s = Echo_e (RED @ ''[FAIL]'' @ NC @ '' '' @ s)"

definition log_pass :: "string \<Rightarrow> shell_output" where
  "log_pass s = Echo_e (GREEN @ ''[PASS]'' @ NC @ '' '' @ s)"

definition say :: "shell_output list \<Rightarrow> harness \<Rightarrow> harness" where
  "say ls h = h\<lparr>printed := printed h @ ls\<rparr>"

definition ruler :: shell_output where
  "ruler = Echo ''=============================================''"

text \<open>The variables make sees when the harness sets none, and the harness's call of make.\<close>

definition no_vars :: make_vars where
  "no_vars = \<lparr>BUILD_MODE_given = None, CROSS_ARCH = [], CPP = [''cc'', ''-E'']\<rparr>"

definition run_make :: "machine \<Rightarrow> goal \<Rightarrow> make_vars \<Rightarrow> nat" where
  "run_make m g v = (if command_v m ''make'' then make_cmd m g v else 127)"

text \<open>
  The \<^verbatim>\<open>if make ...; then ... else ... fi\<close> block that the script has three times: what is
  printed and counted for a build with the given label, architecture name and status.
\<close>

definition tally :: "nat \<Rightarrow> string \<Rightarrow> string \<Rightarrow> harness \<Rightarrow> harness" where
  "tally st label arch h =
     (if st = 0 then (say [log_pass label] h)\<lparr>PASSED := PASSED h + 1\<rparr>
      else (say [log_error label] h)\<lparr>FAILED_ARCHS := FAILED_ARCHS h @ [arch], FAILED := FAILED h + 1\<rparr>)"

definition ARCH_COMPILERS :: "(string \<times> string) list" where
  "ARCH_COMPILERS =
     [(''arm64'', ''aarch64-linux-gnu-g++''),
      (''armel'', ''arm-linux-gnueabi-g++''),
      (''riscv64'', ''riscv64-linux-gnu-g++''),
      (''amd64'', ''x86_64-linux-gnu-g++''),
      (''i386'', ''i686-linux-gnu-g++'')]"

text \<open>\<^verbatim>\<open>${ARCH_COMPILERS[$arch]}\<close>: the empty string for a key the table does not have.\<close>

definition compiler_of :: "string \<Rightarrow> string" where
  "compiler_of arch = (case map_of ARCH_COMPILERS arch of Some c \<Rightarrow> c | None \<Rightarrow> [])"

definition cross_vars :: "string \<Rightarrow> make_vars" where
  "cross_vars arch = \<lparr>BUILD_MODE_given = None, CROSS_ARCH = arch, CPP = [compiler_of arch]\<rparr>"

text \<open>
  The loop \<^verbatim>\<open>for arch in "${!ARCH_COMPILERS[@]}"\<close>. Bash gives the keys of an associative
  array in an order of its own, so the list of keys is an argument.
\<close>

fun cross_loop :: "machine \<Rightarrow> string list \<Rightarrow> harness \<Rightarrow> harness" where
  "cross_loop m [] h = h"
| "cross_loop m (arch # rest) h =
     (let compiler = compiler_of arch in
      if \<not> command_v m compiler
      then cross_loop m rest
             (say [log_warn (''Skipping '' @ arch @ '' - '' @ compiler @ '' not found'')] h)
      else cross_loop m rest
             (tally (run_make m Goal_cross_compile (cross_vars arch))
                (arch @ '' compilation'') arch
                (say [log_info (''Testing '' @ arch @ '' compilation...'')] h)))"

definition summary :: "harness \<Rightarrow> shell_output list" where
  "summary h =
     [Echo [], ruler, Echo ''  Build Test Summary'', ruler,
      Echo_e (''  '' @ GREEN @ ''Passed:'' @ NC @ '' '' @ dec_nat (PASSED h)),
      Echo_e (''  '' @ RED @ ''Failed:'' @ NC @ '' '' @ dec_nat (FAILED h))]
     @ (if FAILED h > 0
        then [Echo [], Echo ''  Failed architectures:'']
               @ map (\<lambda>arch. Echo (''    - '' @ arch)) (FAILED_ARCHS h)
        else [])
     @ [ruler]"

definition harness_init :: harness where
  "harness_init =
     \<lparr>PASSED = 0, FAILED = 0, FAILED_ARCHS = [],
      printed = [ruler, Echo ''  Cross-Compilation Build Test'', ruler, Echo []]\<rparr>"

text \<open>
  The script up to the summary. \<^verbatim>\<open>make clean ... || true\<close> changes neither the counters
  nor the output; the tree is taken as clean after it.
\<close>

definition run_builds :: "machine \<Rightarrow> string list \<Rightarrow> harness" where
  "run_builds m keys =
     (let h0 = say [log_info ''Cleaning previous builds...''] harness_init;
          h1 = tally (run_make m Goal_host_compile no_vars) ''Host compilation'' ''host''
                 (say [log_info ''Testing host compilation...''] h0);
          h2 = tally (run_make m Goal_all no_vars) ''ARM HF compilation'' ''armhf''
                 (say [log_info ''Testing ARM HF compilation...''] h1)
      in cross_loop m keys h2)"

definition test_build :: "machine \<Rightarrow> string list \<Rightarrow> harness" where
  "test_build m keys = (let h = run_builds m keys in say (summary h) h)"

text \<open>The last command, \<^verbatim>\<open>[ $FAILED -eq 0 ]\<close>, gives the script its exit status.\<close>

definition exit_status :: "harness \<Rightarrow> nat" where
  "exit_status h = (if FAILED h = 0 then 0 else 1)"

text \<open>
  The builds the harness attempts, in the words of the specification: the host build, the
  default ARM HF build, and the build of each architecture of the table whose compiler is
  present; each with the name the harness gives it.
\<close>

definition attempted :: "machine \<Rightarrow> string list \<Rightarrow> (string \<times> goal \<times> make_vars) list" where
  "attempted m keys =
     [(''host'', Goal_host_compile, no_vars), (''armhf'', Goal_all, no_vars)]
     @ map (\<lambda>arch. (arch, Goal_cross_compile, cross_vars arch))
         (filter (\<lambda>arch. command_v m (compiler_of arch)) keys)"

definition build_ok :: "machine \<Rightarrow> string \<times> goal \<times> make_vars \<Rightarrow> bool" where
  "build_ok m b = (case b of (name, g, v) \<Rightarrow> run_make m g v = 0)"

text \<open>
  Two machines to run the harness on. On both every program that is found exits with
  status 0 and the sources are \<^verbatim>\<open>src/main.cpp\<close>; the first has make and the host compiler
  only, the second has every compiler as well. \<open>table_order\<close> is the order in which the
  script lists the table.
\<close>

definition status_zero :: "string list \<Rightarrow> nat" where
  "status_zero argv = 0"

definition no_file :: "string \<Rightarrow> bool" where
  "no_file path = False"

definition host_only_machine :: machine where
  "host_only_machine =
     \<lparr>installed = [''make'', ''g++''], status = status_zero, regular_file = no_file,
      wildcard_src = [''src/main.cpp'']\<rparr>"

definition full_machine :: machine where
  "full_machine =
     \<lparr>installed = [''make'', ''g++'', ''arm-linux-gnueabihf-g++'', ''aarch64-linux-gnu-g++'',
        ''arm-linux-gnueabi-g++'', ''riscv64-linux-gnu-g++'', ''x86_64-linux-gnu-g++'',
        ''i686-linux-gnu-g++''],
      status = status_zero, regular_file = no_file, wildcard_src = [''src/main.cpp'']\<rparr>"

definition table_order :: "string list" where
  "table_order = map fst ARCH_COMPILERS"

section \<open>Deploy and debug orchestrator (deploy.sh)\<close>

definition quote :: char where
  "quote = CHR 0x27"

definition deploy_log_error :: "string \<Rightarrow> shell_output" where
  "deploy_log_error s = Echo_e (RED @ ''[ERROR]'' @ NC @ '' '' @ s)"

text \<open>
  What a run does, in order: a line printed, the shell's own message for a missing
  argument, and a command run through \<^verbatim>\<open>sshpass\<close> on the remote target.
\<close>

datatype action = Say shell_output | Shell_error string | Exec "string list"

record deploy_args =
  DEST_IP :: string
  DEBUG_PORT :: string
  BINARY :: string
  DEST_DIR :: string
  USER :: string
  PASS :: string

text \<open>\<^verbatim>\<open>${n:?message}\<close>: the \<open>n\<close>-th argument, or the message when it is unset or empty.\<close>

definition param :: "string list \<Rightarrow> nat \<Rightarrow> string \<Rightarrow> string + string" where
  "param args n message =
     (if 0 < n \<and> n \<le> length args \<and> args ! (n - 1) \<noteq> [] then Inr (args ! (n - 1))
      else Inl message)"

definition parse_args :: "string list \<Rightarrow> string + deploy_args" where
  "parse_args args =
     (case param args 1 ''Error: TARGET_IP is required'' of Inl e \<Rightarrow> Inl e | Inr ip \<Rightarrow>
     (case param args 2 ''Error: DEBUG_PORT is required'' of Inl e \<Rightarrow> Inl e | Inr port \<Rightarrow>
     (case param args 3 ''Error: BINARY name is required'' of Inl e \<Rightarrow> Inl e | Inr binary \<Rightarrow>
     (case param args 4 ''Error: DEST_DIR is required'' of Inl e \<Rightarrow> Inl e | Inr dir \<Rightarrow>
     (case param args 5 ''Error: USER is required'' of Inl e \<Rightarrow> Inl e | Inr user \<Rightarrow>
     (case param args 6 ''Error: PASS is required'' of Inl e \<Rightarrow> Inl e | Inr pass \<Rightarrow>
        Inr \<lparr>DEST_IP = ip, DEBUG_PORT = port, BINARY = binary, DEST_DIR = dir,
             USER = user, PASS = pass\<rparr>))))))"

text \<open>The four remote commands, as the words the shell runs.\<close>

definition cleanup_cmd :: "deploy_args \<Rightarrow> string list" where
  "cleanup_cmd a =
     [''sshpass'', ''-p'', PASS a, ''ssh'', ''-o'', ''StrictHostKeyChecking=no'',
      ''-o'', ''ConnectTimeout=10'', USER a @ ''@'' @ DEST_IP a,
      ''sh -c '' @ [quote] @ ''pkill -f gdbserver 2>/dev/null; rm -rf '' @ DEST_DIR a @ ''/''
        @ BINARY a @ ''; exit 0'' @ [quote]]"

definition scp_cmd :: "deploy_args \<Rightarrow> string list" where
  "scp_cmd a =
     [''sshpass'', ''-p'', PASS a, ''scp'', ''-o'', ''StrictHostKeyChecking=no'',
      ''-o'', ''ConnectTimeout=10'', BINARY a,
      USER a @ ''@'' @ DEST_IP a @ '':'' @ DEST_DIR a @ ''/'' @ BINARY a]"

definition chmod_cmd :: "deploy_args \<Rightarrow> string list" where
  "chmod_cmd a =
     [''sshpass'', ''-p'', PASS a, ''ssh'', ''-o'', ''StrictHostKeyChecking=no'',
      USER a @ ''@'' @ DEST_IP a, ''chmod +x '' @ DEST_DIR a @ ''/'' @ BINARY a]"

definition gdbserver_cmd :: "deploy_args \<Rightarrow> string list" where
  "gdbserver_cmd a =
     [''sshpass'', ''-p'', PASS a, ''ssh'', ''-t'', ''-o'', ''StrictHostKeyChecking=no'',
      USER a @ ''@'' @ DEST_IP a,
      ''sh -c '' @ [quote] @ ''cd '' @ DEST_DIR a @ ''; gdbserver localhost:'' @ DEBUG_PORT a
        @ '' '' @ BINARY a @ [quote]]"

text \<open>
  A script under \<^verbatim>\<open>set -e\<close>: a line to print, a command, and a command followed by
  \<^verbatim>\<open>|| true\<close>. A command with a nonzero status ends the script with that status; after
  \<^verbatim>\<open>|| true\<close> the status is 0. The script's status is that of its last command.
\<close>

datatype step = Print shell_output | Command "string list" | Command_or_true "string list"

fun errexit :: "machine \<Rightarrow> nat \<Rightarrow> step list \<Rightarrow> nat \<times> action list" where
  "errexit m st [] = (st, [])"
| "errexit m st (Print x # rest) =
     (case errexit m 0 rest of (st', tr) \<Rightarrow> (st', Say x # tr))"
| "errexit m st (Command argv # rest) =
     (if sh_exec m argv \<noteq> 0 then (sh_exec m argv, [Exec argv])
      else (case errexit m 0 rest of (st', tr) \<Rightarrow> (st', Exec argv # tr)))"
| "errexit m st (Command_or_true argv # rest) =
     (case errexit m 0 rest of (st', tr) \<Rightarrow> (st', Exec argv # tr))"

text \<open>The script from \<^verbatim>\<open>log_info "Deploying to ..."\<close> to its end.\<close>

definition remote_steps :: "deploy_args \<Rightarrow> step list" where
  "remote_steps a =
     [Print (log_info (''Deploying to '' @ USER a @ ''@'' @ DEST_IP a @ '':'' @ DEST_DIR a
               @ ''/'' @ BINARY a)),
      Print (log_info ''Cleaning up previous deployment...''),
      Command_or_true (cleanup_cmd a),
      Print (log_info ''Uploading binary...''),
      Command (scp_cmd a),
      Command (chmod_cmd a),
      Print (log_info (''Starting gdbserver on '' @ DEST_IP a @ '':'' @ DEBUG_PORT a @ ''...'')),
      Command (gdbserver_cmd a)]"

text \<open>The whole script: its exit status and what it did.\<close>

definition deploy :: "machine \<Rightarrow> string list \<Rightarrow> nat \<times> action list" where
  "deploy m args =
     (case parse_args args of
        Inl e \<Rightarrow> (1, [Shell_error e])
      | Inr a \<Rightarrow>
          if \<not> regular_file m (BINARY a)
          then (1, [Say (deploy_log_error (''Binary file '' @ [quote] @ BINARY a @ [quote]
                           @ '' not found!'')),
                    Say (log_info (''Run '' @ [quote] @ ''make'' @ [quote]
                           @ '' first to build the binary.''))])
          else if \<not> command_v m ''sshpass''
          then (1, [Say (deploy_log_error
                      ''sshpass is not installed. Install it with: sudo apt install sshpass'')])
          else errexit m 0 (remote_steps a))"

text \<open>The remote commands of a run, and the third argument (\<^verbatim>\<open>$3\<close>, empty when unset).\<close>

definition remote_actions :: "action list \<Rightarrow> string list list" where
  "remote_actions tr = concat (map (\<lambda>x. case x of Exec argv \<Rightarrow> [argv] | _ \<Rightarrow> []) tr)"

definition artifact_path :: "string list \<Rightarrow> string" where
  "artifact_path args = (if 3 \<le> length args then args ! 2 else [])"

text \<open>
  An invocation of the script, and a machine for it: \<^verbatim>\<open>sshpass\<close> is installed, the artifact
  \<^verbatim>\<open>firmware.bin\<close> is a file, the cleanup command ends with status 255 (the target has
  nothing to clean up, or does not answer) and every other command with status 0.
\<close>

definition deploy_example_args :: "string list" where
  "deploy_example_args =
     [''192.168.1.100'', ''6666'', ''firmware.bin'', ''/home/debian'', ''debian'', ''password'']"

definition deploy_example :: deploy_args where
  "deploy_example =
     \<lparr>DEST_IP = ''192.168.1.100'', DEBUG_PORT = ''6666'', BINARY = ''firmware.bin'',
      DEST_DIR = ''/home/debian'', USER = ''debian'', PASS = ''password''\<rparr>"

definition cleanup_fails :: "string list \<Rightarrow> nat" where
  "cleanup_fails argv = (if argv = cleanup_cmd deploy_example then 255 else 0)"

definition is_firmware :: "string \<Rightarrow> bool" where
  "is_firmware path = (path = ''firmware.bin'')"

definition deploy_machine :: machine where
  "deploy_machine =
     \<lparr>installed = [''sshpass''], status = cleanup_fails, regular_file = is_firmware,
      wildcard_src = []\<rparr>"

text \<open>The same machine, with a transfer that ends with status 1 and a cleanup that succeeds.\<close>

definition transfer_fails :: "string list \<Rightarrow> nat" where
  "transfer_fails argv = (if argv = scp_cmd deploy_example then 1 else 0)"

definition offline_machine :: machine where
  "offline_machine =
     \<lparr>installed = [''sshpass''], status = transfer_fails, regular_file = is_firmware,
      wildcard_src = []\<rparr>"

section \<open>Sample program (src/main.cpp)\<close>

definition LOOP_DELAY_US :: nat where
  "LOOP_DELAY_US = 500 * 1000"

definition INT_MAX :: int where
  "INT_MAX = 2147483647"

text \<open>
  What the loop does that can be seen from outside: a call of the logger (level and
  formatted message) and a sleep. \<open>debug\<close> says whether \<^verbatim>\<open>DEBUG\<close> is defined at compile time.
\<close>

datatype event = Log_call LogLevel string | Usleep nat

datatype undefined_behaviour = Signed_overflow

text \<open>The body of the \<^verbatim>\<open>while\<close> loop, for the value \<open>counter\<close> has when the body starts.\<close>

definition loop_body :: "bool \<Rightarrow> int \<Rightarrow> event list" where
  "loop_body debug counter =
     (if debug then [Log_call LVL_DEBUG (''Counter: '' @ dec_int counter)]
      else if counter mod 10 = 0
      then [Log_call LVL_INFO (''Counter: '' @ dec_int counter
              @ '' (release mode - showing every 10th)'')]
      else [])
     @ (if debug \<and> (counter + 1) mod 10 = 0
        then [Log_call LVL_TRACE (''Periodic trace at counter='' @ dec_int (counter + 1))]
        else [])
     @ [Usleep LOOP_DELAY_US]"

text \<open>
  The loop. \<open>g_running k\<close> is what the \<open>k\<close>-th evaluation of the loop condition reads from
  the flag (the signal handler writes it from outside). \<^verbatim>\<open>counter++\<close> on the largest
  \<^verbatim>\<open>int\<close> is undefined in C++, which ends the model's run.
\<close>

function mainLoop_while ::
  "bool \<Rightarrow> (nat \<Rightarrow> bool) \<Rightarrow> nat \<Rightarrow> int \<Rightarrow> event list \<Rightarrow> undefined_behaviour + int \<times> event list" where
  "mainLoop_while debug g_running k counter tr =
     (if g_running k
      then (if INT_MAX \<le> counter then Inl Signed_overflow
            else mainLoop_while debug g_running (Suc k) (counter + 1) (tr @ loop_body debug counter))
      else Inr (counter, tr))"
  by pat_completeness auto
termination
  by (relation "measure (\<lambda>(debug, g_running, k, counter, tr). nat (INT_MAX - counter))") auto

declare mainLoop_while.simps [simp del]

definition mainLoop :: "bool \<Rightarrow> (nat \<Rightarrow> bool) \<Rightarrow> undefined_behaviour + int \<times> event list" where
  "mainLoop debug g_running =
     (case mainLoop_while debug g_running 0 0
             [Log_call LVL_INFO ''Starting main loop (Ctrl+C to exit)...''] of
        Inl ub \<Rightarrow> Inl ub
      | Inr (counter, tr) \<Rightarrow>
          Inr (counter, tr @ [Log_call LVL_INFO
                 (''Main loop exited after '' @ dec_int counter @ '' iterations'')]))"

text \<open>The threshold \<^verbatim>\<open>main\<close> gives the logger, and the events that reach the output with it.\<close>

definition main_level :: "bool \<Rightarrow> LogLevel" where
  "main_level debug = (if debug then LVL_DEBUG else LVL_INFO)"

definition shown :: "LogLevel \<Rightarrow> event list \<Rightarrow> event list" where
  "shown threshold tr =
     filter (\<lambda>e. case e of Log_call level message \<Rightarrow> \<not> level < threshold | Usleep us \<Rightarrow> True) tr"

text \<open>
  One iteration as the specification words it: the sleep first, the counter logged after it.
\<close>

definition sleep_then_log :: "bool \<Rightarrow> int \<Rightarrow> event list" where
  "sleep_then_log debug counter =
     Usleep LOOP_DELAY_US
     # (if debug then [Log_call LVL_DEBUG (''Counter: '' @ dec_int counter)]
        else if counter mod 10 = 0
        then [Log_call LVL_INFO (''Counter: '' @ dec_int counter
                @ '' (release mode - showing every 10th)'')]
        else [])"

text \<open>
  The whole run as the specification words it, for a loop that makes \<open>n\<close> iterations.
\<close>

definition sleep_then_log_run :: "bool \<Rightarrow> nat \<Rightarrow> event list" where
  "sleep_then_log_run debug n =
     Log_call LVL_INFO ''Starting main loop (Ctrl+C to exit)...''
     # concat (map (\<lambda>i. sleep_then_log debug (int i)) [0..<n])
     @ [Log_call LVL_INFO (''Main loop exited after '' @ dec_int (int n) @ '' iterations'')]"

text \<open>
  The flag as the loop reads it when the signal arrives during the \<open>n\<close>-th iteration: the
  first \<open>n\<close> evaluations of the loop condition read true, the later ones false.
\<close>

definition signal_during :: "nat \<Rightarrow> nat \<Rightarrow> bool" where
  "signal_during n k = (k < n)"

section \<open>Properties of the logging facility\<close>

lemmas LVL_defs = LVL_TRACE_def LVL_DEBUG_def LVL_INFO_def LVL_WARN_def LVL_ERROR_def LVL_FATAL_def

lemma digit_char_is_digit: "d < 10 \<Longrightarrow> is_digit (digit_char d)"
proof -
  assume "d < 10"
  then have "d \<in> {0, 1, 2, 3, 4, 5, 6, 7, 8, 9}" by auto
  then show ?thesis by (auto simp: digit_char_def is_digit_def)
qed

lemma dec_nat_digits: "c \<in> set (dec_nat n) \<Longrightarrow> is_digit c"
proof (induction n rule: dec_nat.induct)
  case (1 n)
  show ?case
  proof (cases "n < 10")
    case True
    with "1.prems" show ?thesis
      by (simp add: dec_nat.simps [of n] digit_char_is_digit)
  next
    case False
    with "1.prems" "1.IH" show ?thesis
      by (auto simp: dec_nat.simps [of n] digit_char_is_digit)
  qed
qed

lemma is_digit_not_newline: "is_digit c \<Longrightarrow> c \<noteq> newline"
  by (auto simp: is_digit_def newline_def)

lemma dec_nat_no_newline: "newline \<notin> set (dec_nat n)"
  using dec_nat_digits is_digit_not_newline by blast

lemma dec_int_no_newline: "newline \<notin> set (dec_int i)"
  using dec_nat_no_newline by (simp add: dec_int_def newline_def)

lemma pad2_no_newline: "newline \<notin> set (pad2 i)"
  using dec_int_no_newline [of i] by (simp add: pad2_def newline_def)

lemma getTimestamp_no_newline: "newline \<notin> set (getTimestamp t)"
  using pad2_no_newline dec_int_no_newline by (simp add: getTimestamp_def newline_def)

lemma levelToString_no_newline: "newline \<notin> set (levelToString level)"
  by (simp add: levelToString_def newline_def)

lemma levelToString_length: "length (levelToString level) = 5"
  by (simp add: levelToString_def)

lemma strrchr_None: "strrchr s c = None \<longleftrightarrow> c \<notin> set s"
  by (induction s) (auto split: option.splits)

lemma strrchr_Some:
  "strrchr s c = Some r \<Longrightarrow> \<exists>p t. s = p @ c # t \<and> r = c # t \<and> c \<notin> set t"
proof (induction s)
  case Nil
  then show ?case by simp
next
  case (Cons x xs)
  show ?case
  proof (cases "strrchr xs c")
    case None
    with Cons.prems have "x = c" "r = x # xs" by (auto split: if_splits)
    moreover from None have "c \<notin> set xs" by (simp add: strrchr_None)
    ultimately show ?thesis by (intro exI [of _ "[]"] exI [of _ xs]) simp
  next
    case (Some r')
    with Cons.prems have "r' = r" by simp
    with Some Cons.IH obtain p t where "xs = p @ c # t" "r = c # t" "c \<notin> set t" by blast
    then show ?thesis by (intro exI [of _ "x # p"] exI [of _ t]) simp
  qed
qed

lemma getFilename_no_slash: "CHR ''/'' \<notin> set (getFilename path)"
proof (cases "strrchr path CHR ''/''")
  case None
  then have no: "CHR ''/'' \<notin> set path" by (simp add: strrchr_None)
  show ?thesis
  proof (cases "strrchr path backslash")
    case None
    with \<open>strrchr path CHR ''/'' = None\<close> no show ?thesis by (simp add: getFilename_def)
  next
    case (Some r)
    then obtain p t where "path = p @ backslash # t" "r = backslash # t"
      using strrchr_Some by blast
    with Some \<open>strrchr path CHR ''/'' = None\<close> no show ?thesis
      by (auto simp: getFilename_def)
  qed
next
  case (Some r)
  then obtain p t where "path = p @ CHR ''/'' # t" "r = CHR ''/'' # t" "CHR ''/'' \<notin> set t"
    using strrchr_Some by blast
  with Some show ?thesis by (simp add: getFilename_def)
qed

lemma getFilename_suffix:
  "\<exists>dir. path = dir @ getFilename path \<and> (dir = [] \<or> last dir = CHR ''/'' \<or> last dir = backslash)"
proof (cases "strrchr path CHR ''/''")
  case None
  show ?thesis
  proof (cases "strrchr path backslash")
    case None
    with \<open>strrchr path CHR ''/'' = None\<close> show ?thesis by (simp add: getFilename_def)
  next
    case (Some r)
    then obtain p t where "path = p @ backslash # t" "r = backslash # t"
      using strrchr_Some by blast
    with Some \<open>strrchr path CHR ''/'' = None\<close> show ?thesis
      by (intro exI [of _ "p @ [backslash]"]) (simp add: getFilename_def)
  qed
next
  case (Some r)
  then obtain p t where "path = p @ CHR ''/'' # t" "r = CHR ''/'' # t"
    using strrchr_Some by blast
  with Some show ?thesis
    by (intro exI [of _ "p @ ''/''"]) (simp add: getFilename_def)
qed

lemma strrchr_after_last: "strrchr s c = Some r \<Longrightarrow> tl r = after_last c s"
proof -
  assume "strrchr s c = Some r"
  then obtain p t where s: "s = p @ c # t" and r: "r = c # t" and t: "c \<notin> set t"
    using strrchr_Some by blast
  have "takeWhile (\<lambda>x. x \<noteq> c) (rev t @ c # rev p) = takeWhile (\<lambda>x. x \<noteq> c) (rev t)"
    by (rule takeWhile_tail) simp
  also have "\<dots> = rev t"
    using t by auto
  finally show ?thesis
    using s r by (simp add: after_last_def)
qed

lemma getFilename_after_last:
  "getFilename path =
     (if CHR ''/'' \<in> set path then after_last CHR ''/'' path
      else if backslash \<in> set path then after_last backslash path
      else path)"
proof (cases "strrchr path CHR ''/''")
  case None
  then have no: "CHR ''/'' \<notin> set path" by (simp add: strrchr_None)
  show ?thesis
  proof (cases "strrchr path backslash")
    case None
    then have "backslash \<notin> set path" by (simp add: strrchr_None)
    with None \<open>strrchr path CHR ''/'' = None\<close> no show ?thesis
      by (simp add: getFilename_def)
  next
    case (Some r)
    then have "backslash \<in> set path" using strrchr_None [of path backslash] by simp
    with Some \<open>strrchr path CHR ''/'' = None\<close> no show ?thesis
      by (simp add: getFilename_def strrchr_after_last)
  qed
next
  case (Some r)
  then have "CHR ''/'' \<in> set path" using strrchr_None [of path "CHR ''/''"] by simp
  with Some show ?thesis
    by (simp add: getFilename_def strrchr_after_last)
qed

lemma getFilename_subset: "set (getFilename path) \<subseteq> set path"
  using getFilename_suffix [of path] by (metis Un_upper2 set_append)

lemma getFilename_example: "getFilename ''/a/b/c/file.cpp'' = ''file.cpp''"
  by (simp add: getFilename_def)


lemma dec_nat_length1: "n < 10 \<Longrightarrow> length (dec_nat n) = 1"
  by (simp add: dec_nat.simps [of n])

lemma dec_nat_length2: "10 \<le> n \<Longrightarrow> n < 100 \<Longrightarrow> length (dec_nat n) = 2"
  using dec_nat_length1 [of "n div 10"] by (simp add: dec_nat.simps [of n])

lemma dec_nat_length3: "100 \<le> n \<Longrightarrow> n < 1000 \<Longrightarrow> length (dec_nat n) = 3"
  using dec_nat_length2 [of "n div 10"] by (simp add: dec_nat.simps [of n])

lemma dec_nat_length4: "1000 \<le> n \<Longrightarrow> n < 10000 \<Longrightarrow> length (dec_nat n) = 4"
  using dec_nat_length3 [of "n div 10"] by (simp add: dec_nat.simps [of n])

lemma matches_append:
  "matches p1 s1 \<Longrightarrow> matches p2 s2 \<Longrightarrow> matches (p1 @ p2) (s1 @ s2)"
  by (simp add: matches_def list_all2_appendI)

lemma matches_digits:
  "length s = n \<Longrightarrow> (\<forall>c \<in> set s. is_digit c) \<Longrightarrow> matches (replicate n CHR ''d'') s"
  by (auto simp: matches_def list_all2_conv_all_nth)

lemma matches_literal: "matches [c] [c]" if "c \<noteq> CHR ''d''"
  using that by (simp add: matches_def)

lemma year_matches:
  assumes "1000 \<le> y" "y \<le> 9999"
  shows "matches ''dddd'' (dec_int y)"
proof -
  have "length (dec_nat (nat y)) = 4" using assms by (intro dec_nat_length4) auto
  moreover have "dec_int y = dec_nat (nat y)" using assms by (simp add: dec_int_def)
  moreover have "''dddd'' = replicate 4 CHR ''d''" by (simp add: numeral_eq_Suc)
  ultimately show ?thesis using matches_digits [of "dec_int y" 4] dec_nat_digits by auto
qed

lemma pad2_matches:
  assumes "0 \<le> i" "i \<le> 99"
  shows "matches ''dd'' (pad2 i)"
proof (cases "i < 10")
  case True
  then have "pad2 i = CHR ''0'' # dec_nat (nat i)" using assms by (simp add: pad2_def dec_int_def)
  moreover have "length (dec_nat (nat i)) = 1" using True assms by (intro dec_nat_length1) auto
  moreover have "is_digit CHR ''0''" by (simp add: is_digit_def)
  moreover have "''dd'' = replicate 2 CHR ''d''" by (simp add: numeral_eq_Suc)
  ultimately show ?thesis using matches_digits [of "pad2 i" 2] dec_nat_digits by auto
next
  case False
  then have "pad2 i = dec_nat (nat i)" using assms by (simp add: pad2_def dec_int_def)
  moreover have "length (dec_nat (nat i)) = 2" using False assms by (intro dec_nat_length2) auto
  moreover have "''dd'' = replicate 2 CHR ''d''" by (simp add: numeral_eq_Suc)
  ultimately show ?thesis using matches_digits [of "pad2 i" 2] dec_nat_digits by auto
qed

lemma getTimestamp_layout:
  assumes "calendar_tm t"
  shows "matches ''dddd-dd-dd dd:dd:dd'' (getTimestamp t)"
proof -
  have y: "matches ''dddd'' (dec_int (tm_year t + 1900))"
    using assms by (intro year_matches) (simp_all add: calendar_tm_def)
  have mo: "matches ''dd'' (pad2 (tm_mon t + 1))"
    using assms by (intro pad2_matches) (simp_all add: calendar_tm_def)
  have d: "matches ''dd'' (pad2 (tm_mday t))"
    using assms by (intro pad2_matches) (simp_all add: calendar_tm_def)
  have h: "matches ''dd'' (pad2 (tm_hour t))"
    using assms by (intro pad2_matches) (simp_all add: calendar_tm_def)
  have mi: "matches ''dd'' (pad2 (tm_min t))"
    using assms by (intro pad2_matches) (simp_all add: calendar_tm_def)
  have s: "matches ''dd'' (pad2 (tm_sec t))"
    using assms by (intro pad2_matches) (simp_all add: calendar_tm_def)
  have "matches (''dddd'' @ ''-'' @ ''dd'' @ ''-'' @ ''dd'' @ '' '' @ ''dd'' @ '':'' @ ''dd'' @ '':'' @ ''dd'')
          (getTimestamp t)"
    unfolding getTimestamp_def
    by (intro matches_append y mo d h mi s matches_literal) simp_all
  then show ?thesis by simp
qed

lemma log_dropped: "level < minLevel lg \<Longrightarrow> log lg now level func file line message = lg"
  by (simp add: log_def)

lemma log_emitted:
  "\<not> level < minLevel lg \<Longrightarrow>
     sink (log lg now level func file line message) =
       sink lg @ getTimestamp now @ '' '' @ levelToString level @ '' ['' @ func @ ''] [''
         @ getFilename file @ '':'' @ dec_int line @ ''] : '' @ message @ [newline]"
  by (simp add: log_def Let_def)

lemma literal_not_newline:
  "CHR '' '' \<noteq> newline" "CHR ''['' \<noteq> newline" "CHR '']'' \<noteq> newline" "CHR '':'' \<noteq> newline"
  by (simp_all add: newline_def)

lemma log_one_line:
  assumes "\<not> level < minLevel lg"
    and "newline \<notin> set func" "newline \<notin> set file" "newline \<notin> set message"
  shows "lines_written (written lg (log lg now level func file line message)) = 1"
proof -
  have "newline \<notin> set (getFilename file)"
    using assms(3) getFilename_subset by blast
  then have "newline \<notin> set (getTimestamp now @ '' '' @ levelToString level @ '' ['' @ func @ ''] [''
         @ getFilename file @ '':'' @ dec_int line @ ''] : '' @ message)"
    using assms(2,4) getTimestamp_no_newline levelToString_no_newline dec_int_no_newline
      literal_not_newline
    by (simp del: append_Cons append_Nil)
  then have "count_list (getTimestamp now @ '' '' @ levelToString level @ '' ['' @ func @ ''] [''
         @ getFilename file @ '':'' @ dec_int line @ ''] : '' @ message) newline = 0"
    by (rule count_notin)
  then have "count_list ((getTimestamp now @ '' '' @ levelToString level @ '' ['' @ func @ ''] [''
         @ getFilename file @ '':'' @ dec_int line @ ''] : '' @ message) @ [newline]) newline = 1"
    by (simp only: count_list_append count_list.simps) simp
  then show ?thesis
    using assms(1) by (simp add: lines_written_def written_def log_emitted)
qed

text \<open>
  C6, as stated, fails: a call at or above the threshold whose message holds a newline
  writes two newline-terminated lines, not exactly one.
\<close>

theorem log_two_lines_counterexample:
  "\<not> LVL_INFO < minLevel (Logger_init [])
   \<and> lines_written (written (Logger_init [])
        (log (Logger_init [])
           \<lparr>tm_sec = 56, tm_min = 23, tm_hour = 13, tm_mday = 3, tm_mon = 11, tm_year = 125\<rparr>
           LVL_INFO ''main'' ''/a/b/c/file.cpp'' 42 (''a'' @ [newline] @ ''b''))) = 2"
  by code_simp

text \<open>
  C6, amended: a call with severity strictly below the logger's minimum severity leaves the
  logger and its sink unchanged. A call at or above it appends to the sink the timestamp, a
  space, the severity label, \<^verbatim>\<open> [function] [file:line] : \<close>, the message and one newline;
  that is exactly one newline-terminated line whenever the function name, the path and the
  message hold no newline. The timestamp is the local time as \<^verbatim>\<open>strftime\<close> renders it with
  \<^verbatim>\<open>%Y-%m-%d %H:%M:%S\<close>, which has the layout \<^verbatim>\<open>YYYY-MM-DD HH:MM:SS\<close> for a calendar date
  with a four-digit year. The file field is exactly the part of the path after its last
  \<^verbatim>\<open>/\<close>; for a path without \<^verbatim>\<open>/\<close> it is the part after its last backslash, and for a path
  with neither the whole path. It holds no \<^verbatim>\<open>/\<close>, and \<^verbatim>\<open>/a/b/c/file.cpp\<close> gives \<^verbatim>\<open>file.cpp\<close>.
\<close>

theorem log_threshold_and_layout:
  "(level < minLevel lg \<longrightarrow> log lg now level func file line message = lg)
   \<and> (\<not> level < minLevel lg \<longrightarrow>
        sink (log lg now level func file line message) =
          sink lg @ getTimestamp now @ '' '' @ levelToString level @ '' ['' @ func @ ''] [''
            @ getFilename file @ '':'' @ dec_int line @ ''] : '' @ message @ [newline]
        \<and> (newline \<notin> set func \<and> newline \<notin> set file \<and> newline \<notin> set message \<longrightarrow>
             lines_written (written lg (log lg now level func file line message)) = 1))
   \<and> (calendar_tm now \<longrightarrow> matches ''dddd-dd-dd dd:dd:dd'' (getTimestamp now))
   \<and> getFilename file =
        (if CHR ''/'' \<in> set file then after_last CHR ''/'' file
         else if backslash \<in> set file then after_last backslash file
         else file)
   \<and> CHR ''/'' \<notin> set (getFilename file)
   \<and> getFilename ''/a/b/c/file.cpp'' = ''file.cpp''"
proof (intro conjI impI)
  show "log lg now level func file line message = lg" if "level < minLevel lg"
    using that by (rule log_dropped)
  show "sink (log lg now level func file line message) =
          sink lg @ getTimestamp now @ '' '' @ levelToString level @ '' ['' @ func @ ''] [''
            @ getFilename file @ '':'' @ dec_int line @ ''] : '' @ message @ [newline]"
    if "\<not> level < minLevel lg"
    using that by (rule log_emitted)
  show "lines_written (written lg (log lg now level func file line message)) = 1"
    if "\<not> level < minLevel lg"
      and "newline \<notin> set func \<and> newline \<notin> set file \<and> newline \<notin> set message"
    using that by (simp add: log_one_line)
  show "matches ''dddd-dd-dd dd:dd:dd'' (getTimestamp now)" if "calendar_tm now"
    using that by (rule getTimestamp_layout)
  show "CHR ''/'' \<notin> set (getFilename file)"
    by (rule getFilename_no_slash)
  show "getFilename file =
        (if CHR ''/'' \<in> set file then after_last CHR ''/'' file
         else if backslash \<in> set file then after_last backslash file
         else file)"
    by (rule getFilename_after_last)
  show "getFilename ''/a/b/c/file.cpp'' = ''file.cpp''"
    by (rule getFilename_example)
qed

text \<open>
  The amended C6 at a dropped TRACE call and at an emitted WARN call of a logger with the
  constructor's threshold, and the file field for a path with backslashes only, a path with
  both separators and a path with none.
\<close>

theorem log_threshold_and_layout_witness:
  "LVL_TRACE < minLevel (Logger_init ''x'')
   \<and> log (Logger_init ''x'')
        \<lparr>tm_sec = 56, tm_min = 23, tm_hour = 13, tm_mday = 3, tm_mon = 11, tm_year = 125\<rparr>
        LVL_TRACE ''run'' ''/a/b/c/file.cpp'' 772 ''hello'' = Logger_init ''x''
   \<and> \<not> LVL_WARN < minLevel (Logger_init ''x'')
   \<and> calendar_tm \<lparr>tm_sec = 56, tm_min = 23, tm_hour = 13, tm_mday = 3, tm_mon = 11, tm_year = 125\<rparr>
   \<and> newline \<notin> set ''run'' \<and> newline \<notin> set ''/a/b/c/file.cpp'' \<and> newline \<notin> set ''hello''
   \<and> sink (log (Logger_init ''x'')
        \<lparr>tm_sec = 56, tm_min = 23, tm_hour = 13, tm_mday = 3, tm_mon = 11, tm_year = 125\<rparr>
        LVL_WARN ''run'' ''/a/b/c/file.cpp'' 772 ''hello'')
       = ''x2025-12-03 13:23:56 WARN  [run] [file.cpp:772] : hello'' @ [newline]
   \<and> lines_written (written (Logger_init ''x'') (log (Logger_init ''x'')
        \<lparr>tm_sec = 56, tm_min = 23, tm_hour = 13, tm_mday = 3, tm_mon = 11, tm_year = 125\<rparr>
        LVL_WARN ''run'' ''/a/b/c/file.cpp'' 772 ''hello'')) = 1
   \<and> matches ''dddd-dd-dd dd:dd:dd'' (getTimestamp
        \<lparr>tm_sec = 56, tm_min = 23, tm_hour = 13, tm_mday = 3, tm_mon = 11, tm_year = 125\<rparr>)
   \<and> getFilename (''a'' @ [backslash] @ ''b'' @ [backslash] @ ''c'') = ''c''
   \<and> getFilename (''a/b'' @ [backslash] @ ''c'') = ''b'' @ [backslash] @ ''c''
   \<and> getFilename ''PSApp.cpp'' = ''PSApp.cpp''"
proof -
  let ?t = "\<lparr>tm_sec = 56, tm_min = 23, tm_hour = 13, tm_mday = 3, tm_mon = 11, tm_year = 125\<rparr>"
  let ?lg = "Logger_init ''x''"
  have lo: "LVL_TRACE < minLevel ?lg" by (simp add: Logger_init_def LVL_defs)
  have hi: "\<not> LVL_WARN < minLevel ?lg" by (simp add: Logger_init_def LVL_defs)
  have cal: "calendar_tm ?t" by (simp add: calendar_tm_def)
  have nl: "newline \<notin> set ''run'' \<and> newline \<notin> set ''/a/b/c/file.cpp'' \<and> newline \<notin> set ''hello''"
    by (simp add: newline_def)
  have ts: "getTimestamp ?t = ''2025-12-03 13:23:56''" by code_simp
  have ln: "dec_int 772 = ''772''" by code_simp
  note a = log_threshold_and_layout [of LVL_TRACE ?lg ?t "''run''" "''/a/b/c/file.cpp''" 772 "''hello''"]
  note b = log_threshold_and_layout [of LVL_WARN ?lg ?t "''run''" "''/a/b/c/file.cpp''" 772 "''hello''"]
  from a lo have 1: "log ?lg ?t LVL_TRACE ''run'' ''/a/b/c/file.cpp'' 772 ''hello'' = ?lg" by blast
  from b hi have 2: "sink (log ?lg ?t LVL_WARN ''run'' ''/a/b/c/file.cpp'' 772 ''hello'') =
      sink ?lg @ getTimestamp ?t @ '' '' @ levelToString LVL_WARN @ '' ['' @ ''run'' @ ''] [''
            @ getFilename ''/a/b/c/file.cpp'' @ '':'' @ dec_int 772 @ ''] : '' @ ''hello'' @ [newline]"
    by blast
  from b hi nl have 3: "lines_written (written ?lg (log ?lg ?t LVL_WARN ''run'' ''/a/b/c/file.cpp'' 772 ''hello'')) = 1"
    by blast
  from b cal have 4: "matches ''dddd-dd-dd dd:dd:dd'' (getTimestamp ?t)" by blast
  from b have 5: "getFilename ''/a/b/c/file.cpp'' = ''file.cpp''" by blast
  have 6: "sink (log ?lg ?t LVL_WARN ''run'' ''/a/b/c/file.cpp'' 772 ''hello'')
       = ''x2025-12-03 13:23:56 WARN  [run] [file.cpp:772] : hello'' @ [newline]"
    unfolding 2 5 ts ln by (simp add: Logger_init_def levelToString_def LVL_defs)
  note c = log_threshold_and_layout [of LVL_WARN ?lg ?t "''run''"
      "''a'' @ [backslash] @ ''b'' @ [backslash] @ ''c''" 772 "''hello''"]
  note d = log_threshold_and_layout [of LVL_WARN ?lg ?t "''run''"
      "''a/b'' @ [backslash] @ ''c''" 772 "''hello''"]
  note e = log_threshold_and_layout [of LVL_WARN ?lg ?t "''run''" "''PSApp.cpp''" 772 "''hello''"]
  from c have "getFilename (''a'' @ [backslash] @ ''b'' @ [backslash] @ ''c'') =
      (if CHR ''/'' \<in> set (''a'' @ [backslash] @ ''b'' @ [backslash] @ ''c'')
       then after_last CHR ''/'' (''a'' @ [backslash] @ ''b'' @ [backslash] @ ''c'')
       else if backslash \<in> set (''a'' @ [backslash] @ ''b'' @ [backslash] @ ''c'')
       then after_last backslash (''a'' @ [backslash] @ ''b'' @ [backslash] @ ''c'')
       else ''a'' @ [backslash] @ ''b'' @ [backslash] @ ''c'')"
    by blast
  then have 7: "getFilename (''a'' @ [backslash] @ ''b'' @ [backslash] @ ''c'') = ''c''"
    by (simp add: after_last_def backslash_def)
  from d have "getFilename (''a/b'' @ [backslash] @ ''c'') =
      (if CHR ''/'' \<in> set (''a/b'' @ [backslash] @ ''c'')
       then after_last CHR ''/'' (''a/b'' @ [backslash] @ ''c'')
       else if backslash \<in> set (''a/b'' @ [backslash] @ ''c'')
       then after_last backslash (''a/b'' @ [backslash] @ ''c'')
       else ''a/b'' @ [backslash] @ ''c'')"
    by blast
  then have 8: "getFilename (''a/b'' @ [backslash] @ ''c'') = ''b'' @ [backslash] @ ''c''"
    by (simp add: after_last_def backslash_def)
  from e have "getFilename ''PSApp.cpp'' =
      (if CHR ''/'' \<in> set ''PSApp.cpp'' then after_last CHR ''/'' ''PSApp.cpp''
       else if backslash \<in> set ''PSApp.cpp'' then after_last backslash ''PSApp.cpp''
       else ''PSApp.cpp'')"
    by blast
  then have 9: "getFilename ''PSApp.cpp'' = ''PSApp.cpp''"
    by (simp add: backslash_def)
  show ?thesis using lo hi cal nl 1 3 4 6 7 8 9 by blast
qed

text \<open>
  C7, as stated, fails: the label of INFO is not the name padded on the left to five
  characters.
\<close>

theorem label_left_pad_counterexample:
  "(LVL_INFO, ''INFO'') \<in> set severities \<and> levelToString LVL_INFO \<noteq> left_pad 5 ''INFO''"
  by (simp add: severities_def levelToString_def left_pad_def LVL_defs)

text \<open>
  C7, amended: for every one of the six severities, the label is the severity's name padded
  with spaces on the right (the name left-aligned) to exactly 5 characters.
\<close>

theorem label_right_padded:
  "\<forall>(level, name) \<in> set severities.
     levelToString level = right_pad 5 name \<and> length (levelToString level) = 5"
  by (simp add: severities_def levelToString_def right_pad_def LVL_defs)

text \<open>The amended C7 at WARN.\<close>

theorem label_right_padded_witness:
  "(LVL_WARN, ''WARN'') \<in> set severities \<and> levelToString LVL_WARN = ''WARN ''"
proof -
  have mem: "(LVL_WARN, ''WARN'') \<in> set severities" by (simp add: severities_def)
  from label_right_padded mem have "levelToString LVL_WARN = right_pad 5 ''WARN''" by blast
  then show ?thesis using mem by (simp add: right_pad_def)
qed

text \<open>
  C10: the label of every severity value has 5 characters; a value outside the six levels
  has the label \<^verbatim>\<open>?????\<close>; and for every value at or above the threshold the call appends
  the record in the fixed layout with that label.
\<close>

theorem levelToString_total:
  "length (levelToString level) = 5
   \<and> (level < LVL_TRACE \<or> LVL_FATAL < level \<longrightarrow> levelToString level = ''?????'')
   \<and> (\<not> level < minLevel lg \<longrightarrow>
        sink (log lg now level func file line message) =
          sink lg @ getTimestamp now @ '' '' @ levelToString level @ '' ['' @ func @ ''] [''
            @ getFilename file @ '':'' @ dec_int line @ ''] : '' @ message @ [newline])"
proof -
  have "level < LVL_TRACE \<or> LVL_FATAL < level \<longrightarrow> levelToString level = ''?????''"
    by (auto simp: levelToString_def LVL_defs)
  then show ?thesis using levelToString_length log_emitted by blast
qed

text \<open>C10 at the severity value 7, which no enumerator has.\<close>

theorem levelToString_total_witness:
  "(7 < LVL_TRACE \<or> LVL_FATAL < 7) \<and> \<not> 7 < minLevel (Logger_init [])
   \<and> levelToString 7 = ''?????''
   \<and> sink (log (Logger_init [])
        \<lparr>tm_sec = 56, tm_min = 23, tm_hour = 13, tm_mday = 3, tm_mon = 11, tm_year = 125\<rparr>
        7 ''run'' ''PSApp.cpp'' 772 ''hello'')
      = ''2025-12-03 13:23:56 ????? [run] [PSApp.cpp:772] : hello'' @ [newline]"
proof -
  let ?t = "\<lparr>tm_sec = 56, tm_min = 23, tm_hour = 13, tm_mday = 3, tm_mon = 11, tm_year = 125\<rparr>"
  let ?lg = "Logger_init []"
  have out: "7 < LVL_TRACE \<or> LVL_FATAL < 7" by (simp add: LVL_defs)
  have hi: "\<not> 7 < minLevel ?lg" by (simp add: Logger_init_def LVL_defs)
  have ts: "getTimestamp ?t = ''2025-12-03 13:23:56''" by code_simp
  have ln: "dec_int 772 = ''772''" by code_simp
  have fn: "getFilename ''PSApp.cpp'' = ''PSApp.cpp''" by (simp add: getFilename_def backslash_def)
  note a = levelToString_total [of 7 ?lg ?t "''run''" "''PSApp.cpp''" 772 "''hello''"]
  from a out have 1: "levelToString 7 = ''?????''" by blast
  from a hi have 2: "sink (log ?lg ?t 7 ''run'' ''PSApp.cpp'' 772 ''hello'') =
      sink ?lg @ getTimestamp ?t @ '' '' @ levelToString 7 @ '' ['' @ ''run'' @ ''] [''
            @ getFilename ''PSApp.cpp'' @ '':'' @ dec_int 772 @ ''] : '' @ ''hello'' @ [newline]"
    by blast
  have 3: "sink (log ?lg ?t 7 ''run'' ''PSApp.cpp'' 772 ''hello'')
      = ''2025-12-03 13:23:56 ????? [run] [PSApp.cpp:772] : hello'' @ [newline]"
    unfolding 2 1 ts ln fn by (simp add: Logger_init_def)
  show ?thesis using out hi 1 3 by blast
qed

section \<open>Properties of the build-variant resolver\<close>





text \<open>
  C9, as stated, fails: the default goal, which is the build for ARM HF, names its artifact
  \<^verbatim>\<open>firmware.bin\<close> also when the architecture token armhf is given; that is neither
  \<^verbatim>\<open>firmware_armhf.bin\<close> nor the name of the host build.
\<close>

theorem artifact_default_goal_counterexample:
  "''armhf'' \<in> set supported_archs
   \<and> artifact Goal_all \<lparr>BUILD_MODE_given = None, CROSS_ARCH = ''armhf'',
        CPP = [''arm-linux-gnueabihf-g++'']\<rparr> = ''firmware.bin''
   \<and> ''firmware.bin'' \<noteq> PROJECT_NAME @ ''_'' @ ''armhf'' @ ''.bin''
   \<and> ''firmware.bin'' \<noteq> HOST_BINARY"
  by (simp add: supported_archs_def artifact_def TARGET_BINARY_def PROJECT_NAME_def HOST_BINARY_def)

text \<open>
  C9, amended: for every supported architecture token given in \<^verbatim>\<open>CROSS_ARCH\<close>, the generic
  cross-compile goals (cross_compile, cross-debug, cross-release) name the artifact
  \<^verbatim>\<open><project>_<architecture>.bin\<close>; with \<^verbatim>\<open>CROSS_ARCH\<close> unset or a supported token, the host
  goals name it \<^verbatim>\<open>program.bin\<close> and the default ARM HF goals (all, debug, release) name it
  \<^verbatim>\<open><project>.bin\<close>; the project is \<^verbatim>\<open>firmware\<close>.
\<close>

theorem artifact_names:
  "(g \<in> {Goal_cross_compile, Goal_cross_debug, Goal_cross_release}
      \<and> CROSS_ARCH v \<in> set supported_archs \<longrightarrow>
      artifact g v = PROJECT_NAME @ ''_'' @ CROSS_ARCH v @ ''.bin'')
   \<and> (g \<in> {Goal_host, Goal_host_debug, Goal_host_release, Goal_host_compile}
      \<and> (CROSS_ARCH v = [] \<or> CROSS_ARCH v \<in> set supported_archs) \<longrightarrow>
      artifact g v = ''program.bin'')
   \<and> (g \<in> {Goal_all, Goal_debug, Goal_release}
      \<and> (CROSS_ARCH v = [] \<or> CROSS_ARCH v \<in> set supported_archs) \<longrightarrow>
      artifact g v = PROJECT_NAME @ ''.bin'')
   \<and> PROJECT_NAME = ''firmware''"
  by (auto simp: artifact_def CROSS_BINARY_def HOST_BINARY_def TARGET_BINARY_def PROJECT_NAME_def)

text \<open>
  The amended C9 at one goal of each kind: a cross-compile goal with the token arm64, a
  host goal with \<^verbatim>\<open>CROSS_ARCH\<close> unset and a default goal with the token armhf.
\<close>

theorem artifact_names_witness:
  "Goal_cross_release \<in> {Goal_cross_compile, Goal_cross_debug, Goal_cross_release}
   \<and> ''arm64'' \<in> set supported_archs
   \<and> artifact Goal_cross_release \<lparr>BUILD_MODE_given = None, CROSS_ARCH = ''arm64'',
        CPP = [''aarch64-linux-gnu-g++'']\<rparr> = ''firmware_arm64.bin''
   \<and> Goal_host_release \<in> {Goal_host, Goal_host_debug, Goal_host_release, Goal_host_compile}
   \<and> artifact Goal_host_release \<lparr>BUILD_MODE_given = None, CROSS_ARCH = [], CPP = []\<rparr>
        = ''program.bin''
   \<and> Goal_release \<in> {Goal_all, Goal_debug, Goal_release}
   \<and> ''armhf'' \<in> set supported_archs
   \<and> artifact Goal_release \<lparr>BUILD_MODE_given = None, CROSS_ARCH = ''armhf'',
        CPP = [''arm-linux-gnueabihf-g++'']\<rparr> = ''firmware.bin''"
proof -
  have m: "''arm64'' \<in> set supported_archs" "''armhf'' \<in> set supported_archs"
    by (simp_all add: supported_archs_def)
  note a = artifact_names [of Goal_cross_release
      "\<lparr>BUILD_MODE_given = None, CROSS_ARCH = ''arm64'', CPP = [''aarch64-linux-gnu-g++'']\<rparr>"]
  note b = artifact_names [of Goal_host_release "\<lparr>BUILD_MODE_given = None, CROSS_ARCH = [], CPP = []\<rparr>"]
  note c = artifact_names [of Goal_release
      "\<lparr>BUILD_MODE_given = None, CROSS_ARCH = ''armhf'', CPP = [''arm-linux-gnueabihf-g++'']\<rparr>"]
  show ?thesis using m a b c by simp
qed

section \<open>Properties of the build verification harness\<close>

text \<open>What one tally does to the counters.\<close>

lemma tally_fields:
  "FAILED_ARCHS (tally st label arch h) = FAILED_ARCHS h @ (if st = 0 then [] else [arch])"
  "FAILED (tally st label arch h) = FAILED h + (if st = 0 then 0 else 1)"
  "PASSED (tally st label arch h) = PASSED h + (if st = 0 then 1 else 0)"
  "printed (tally st label arch h) = printed h @ [if st = 0 then log_pass label else log_error label]"
  by (simp_all add: tally_def say_def)

lemma say_fields:
  "FAILED_ARCHS (say ls h) = FAILED_ARCHS h" "FAILED (say ls h) = FAILED h"
  "PASSED (say ls h) = PASSED h" "printed (say ls h) = printed h @ ls"
  by (simp_all add: say_def)

lemma cross_loop_FAILED_ARCHS:
  "FAILED_ARCHS (cross_loop m keys h) =
     FAILED_ARCHS h @ filter (\<lambda>arch. command_v m (compiler_of arch)
        \<and> run_make m Goal_cross_compile (cross_vars arch) \<noteq> 0) keys"
  by (induction keys arbitrary: h) (simp_all add: Let_def tally_fields say_fields)

lemma cross_loop_FAILED:
  "FAILED (cross_loop m keys h) =
     FAILED h + length (filter (\<lambda>arch. command_v m (compiler_of arch)
        \<and> run_make m Goal_cross_compile (cross_vars arch) \<noteq> 0) keys)"
  by (induction keys arbitrary: h) (simp_all add: Let_def tally_fields say_fields)

lemma cross_loop_PASSED:
  "PASSED (cross_loop m keys h) =
     PASSED h + length (filter (\<lambda>arch. command_v m (compiler_of arch)
        \<and> run_make m Goal_cross_compile (cross_vars arch) = 0) keys)"
  by (induction keys arbitrary: h) (simp_all add: Let_def tally_fields say_fields)

lemma cross_loop_printed_mono:
  "\<exists>more. printed (cross_loop m keys h) = printed h @ more"
proof (induction keys arbitrary: h)
  case Nil
  then show ?case by simp
next
  case (Cons arch keys)
  show ?case
  proof (cases "command_v m (compiler_of arch)")
    case True
    let ?h' = "tally (run_make m Goal_cross_compile (cross_vars arch)) (arch @ '' compilation'') arch
                (say [log_info (''Testing '' @ arch @ '' compilation...'')] h)"
    from Cons.IH [of ?h'] obtain more where "printed (cross_loop m keys ?h') = printed ?h' @ more"
      by blast
    with True show ?thesis by (simp add: Let_def tally_fields say_fields)
  next
    case False
    let ?h' = "say [log_warn (''Skipping '' @ arch @ '' - '' @ compiler_of arch @ '' not found'')] h"
    from Cons.IH [of ?h'] obtain more where "printed (cross_loop m keys ?h') = printed ?h' @ more"
      by blast
    with False show ?thesis by (simp add: Let_def say_fields)
  qed
qed

lemma cross_loop_skip_warned:
  assumes "arch \<in> set keys" "\<not> command_v m (compiler_of arch)"
  shows "log_warn (''Skipping '' @ arch @ '' - '' @ compiler_of arch @ '' not found'')
           \<in> set (printed (cross_loop m keys h))"
  using assms
proof (induction keys arbitrary: h)
  case Nil
  then show ?case by simp
next
  case (Cons k keys)
  show ?case
  proof (cases "k = arch")
    case True
    let ?h' = "say [log_warn (''Skipping '' @ arch @ '' - '' @ compiler_of arch @ '' not found'')] h"
    obtain more where "printed (cross_loop m keys ?h') = printed ?h' @ more"
      using cross_loop_printed_mono by blast
    with True Cons.prems(2) show ?thesis by (simp add: Let_def say_fields)
  next
    case False
    with Cons.prems have "arch \<in> set keys" by simp
    with Cons.IH Cons.prems(2) show ?thesis by (simp add: Let_def)
  qed
qed

lemma run_builds_FAILED_ARCHS:
  "FAILED_ARCHS (run_builds m keys) =
     map fst (filter (\<lambda>b. \<not> build_ok m b) (attempted m keys))"
  by (simp add: run_builds_def Let_def cross_loop_FAILED_ARCHS tally_fields say_fields
      harness_init_def attempted_def build_ok_def filter_map comp_def)

lemma run_builds_FAILED:
  "FAILED (run_builds m keys) = length (filter (\<lambda>b. \<not> build_ok m b) (attempted m keys))"
  by (simp add: run_builds_def Let_def cross_loop_FAILED tally_fields say_fields
      harness_init_def attempted_def build_ok_def filter_map comp_def)

lemma run_builds_PASSED:
  "PASSED (run_builds m keys) = length (filter (build_ok m) (attempted m keys))"
  by (simp add: run_builds_def Let_def cross_loop_PASSED tally_fields say_fields
      harness_init_def attempted_def build_ok_def filter_map comp_def)

lemma test_build_fields:
  "FAILED_ARCHS (test_build m keys) = FAILED_ARCHS (run_builds m keys)"
  "FAILED (test_build m keys) = FAILED (run_builds m keys)"
  "PASSED (test_build m keys) = PASSED (run_builds m keys)"
  "printed (test_build m keys) = printed (run_builds m keys) @ summary (run_builds m keys)"
  by (simp_all add: test_build_def Let_def say_fields)

lemma exit_status_iff:
  "exit_status (test_build m keys) = 0 \<longleftrightarrow> (\<forall>b \<in> set (attempted m keys). build_ok m b)"
  by (simp add: exit_status_def test_build_fields run_builds_FAILED filter_empty_conv)

lemma failing_in_summary:
  assumes "b \<in> set (attempted m keys)" "\<not> build_ok m b"
  shows "Echo (''    - '' @ fst b) \<in> set (summary (run_builds m keys))"
proof -
  from assms have "fst b \<in> set (FAILED_ARCHS (run_builds m keys))"
    by (auto simp: run_builds_FAILED_ARCHS)
  moreover from assms have "FAILED (run_builds m keys) > 0"
    by (auto simp: run_builds_FAILED filter_empty_conv)
  ultimately show ?thesis by (simp add: summary_def)
qed

lemma filter_removeAll_absent: "\<not> P x \<Longrightarrow> filter P (removeAll x xs) = filter P xs"
  by (induction xs) auto

lemma attempted_removeAll:
  "\<not> command_v m (compiler_of arch) \<Longrightarrow> attempted m (removeAll arch keys) = attempted m keys"
  by (simp add: attempted_def filter_removeAll_absent)

lemma run_builds_removeAll:
  assumes "\<not> command_v m (compiler_of arch)"
  shows "PASSED (run_builds m (removeAll arch keys)) = PASSED (run_builds m keys)"
    and "FAILED (run_builds m (removeAll arch keys)) = FAILED (run_builds m keys)"
    and "FAILED_ARCHS (run_builds m (removeAll arch keys)) = FAILED_ARCHS (run_builds m keys)"
  using assms
  by (simp_all add: run_builds_PASSED run_builds_FAILED run_builds_FAILED_ARCHS attempted_removeAll)

lemma table_entry:
  assumes "(arch, compiler) \<in> set ARCH_COMPILERS"
  shows "compiler_of arch = compiler" and "arch \<noteq> ''host''" and "arch \<noteq> ''armhf''"
  using assms by (auto simp: ARCH_COMPILERS_def compiler_of_def)

text \<open>
  C2, as stated, fails: on a machine without the ARM HF compiler the harness counts armhf
  as failed, not as skipped, and exits with status 1.
\<close>

theorem armhf_not_skipped_counterexample:
  "\<not> command_v host_only_machine TARGET_CPP
   \<and> ''armhf'' \<in> set (FAILED_ARCHS (test_build host_only_machine table_order))
   \<and> exit_status (test_build host_only_machine table_order) = 1"
  by code_simp

text \<open>
  C2, amended: for every architecture of the table \<^verbatim>\<open>ARCH_COMPILERS\<close> (arm64, armel,
  riscv64, amd64, i386) whose compiler is absent on the invoking machine, the harness does
  not count the architecture as failed and prints the warning that it is skipped, and the
  skip has no effect on the counters or the exit status: they are those of a run whose loop
  does not visit the architecture at all.
\<close>

theorem absent_toolchain_skipped:
  assumes "(arch, compiler) \<in> set ARCH_COMPILERS" and "\<not> command_v m compiler"
  shows "arch \<notin> set (FAILED_ARCHS (test_build m keys))
       \<and> (arch \<in> set keys \<longrightarrow>
            log_warn (''Skipping '' @ arch @ '' - '' @ compiler @ '' not found'')
              \<in> set (printed (test_build m keys)))
       \<and> PASSED (test_build m keys) = PASSED (test_build m (removeAll arch keys))
       \<and> FAILED (test_build m keys) = FAILED (test_build m (removeAll arch keys))
       \<and> FAILED_ARCHS (test_build m keys) = FAILED_ARCHS (test_build m (removeAll arch keys))
       \<and> exit_status (test_build m keys) = exit_status (test_build m (removeAll arch keys))"
proof -
  from assms have absent: "\<not> command_v m (compiler_of arch)" and c: "compiler_of arch = compiler"
    by (simp_all add: table_entry)
  have "arch \<notin> fst ` set (attempted m keys)"
    using absent table_entry(2,3) [OF assms(1)] by (auto simp: attempted_def)
  then have 1: "arch \<notin> set (FAILED_ARCHS (test_build m keys))"
    by (auto simp: test_build_fields run_builds_FAILED_ARCHS)
  have 2: "log_warn (''Skipping '' @ arch @ '' - '' @ compiler @ '' not found'')
              \<in> set (printed (test_build m keys))" if "arch \<in> set keys"
    using cross_loop_skip_warned [OF that absent] c
    by (simp add: test_build_fields run_builds_def Let_def)
  show ?thesis
    using 1 2 run_builds_removeAll [OF absent]
    by (simp add: test_build_fields exit_status_def)
qed

text \<open>The amended C2 at arm64 on the machine that has the host compiler only.\<close>

theorem absent_toolchain_skipped_witness:
  "(''arm64'', ''aarch64-linux-gnu-g++'') \<in> set ARCH_COMPILERS
   \<and> \<not> command_v host_only_machine ''aarch64-linux-gnu-g++''
   \<and> ''arm64'' \<in> set table_order
   \<and> ''arm64'' \<notin> set (FAILED_ARCHS (test_build host_only_machine table_order))
   \<and> log_warn ''Skipping arm64 - aarch64-linux-gnu-g++ not found''
        \<in> set (printed (test_build host_only_machine table_order))
   \<and> exit_status (test_build host_only_machine table_order)
        = exit_status (test_build host_only_machine (removeAll ''arm64'' table_order))"
proof -
  have a: "(''arm64'', ''aarch64-linux-gnu-g++'') \<in> set ARCH_COMPILERS"
    by (simp add: ARCH_COMPILERS_def)
  have b: "\<not> command_v host_only_machine ''aarch64-linux-gnu-g++''"
    by (simp add: command_v_def host_only_machine_def)
  have c: "''arm64'' \<in> set table_order"
    by (simp add: table_order_def ARCH_COMPILERS_def)
  note t = absent_toolchain_skipped [OF a b, of table_order]
  from t c have d: "log_warn (''Skipping '' @ ''arm64'' @ '' - '' @ ''aarch64-linux-gnu-g++'' @ '' not found'')
      \<in> set (printed (test_build host_only_machine table_order))"
    by blast
  have e: "''Skipping '' @ ''arm64'' @ '' - '' @ ''aarch64-linux-gnu-g++'' @ '' not found''
      = ''Skipping arm64 - aarch64-linux-gnu-g++ not found''"
    by simp
  show ?thesis
    using a b c t d unfolding e by blast
qed

text \<open>
  C3: the harness exits with status 0 if and only if every attempted build (the host
  build, the ARM HF build and the build of each architecture whose compiler is present)
  succeeded; if an attempted build fails, the status is not 0 and the line with the name of
  that build's architecture is in the summary, which ends the output.
\<close>

theorem exit_status_reflects_failures:
  "(exit_status (test_build m keys) = 0 \<longleftrightarrow> (\<forall>b \<in> set (attempted m keys). build_ok m b))
   \<and> (\<forall>b \<in> set (attempted m keys). \<not> build_ok m b \<longrightarrow>
        exit_status (test_build m keys) \<noteq> 0
        \<and> Echo (''    - '' @ fst b) \<in> set (summary (run_builds m keys)))
   \<and> printed (test_build m keys) = printed (run_builds m keys) @ summary (run_builds m keys)"
  using exit_status_iff [of m keys] failing_in_summary [of _ m keys]
  by (auto simp: test_build_fields)

text \<open>C3 on a machine where every build succeeds and on one where the ARM HF build fails.\<close>

theorem exit_status_reflects_failures_witness:
  "list_all (build_ok full_machine) (attempted full_machine table_order)
   \<and> exit_status (test_build full_machine table_order) = 0
   \<and> (''armhf'', Goal_all, no_vars) \<in> set (attempted host_only_machine table_order)
   \<and> \<not> build_ok host_only_machine (''armhf'', Goal_all, no_vars)
   \<and> exit_status (test_build host_only_machine table_order) \<noteq> 0
   \<and> Echo ''    - armhf'' \<in> set (summary (run_builds host_only_machine table_order))"
proof -
  have 1: "\<forall>b \<in> set (attempted full_machine table_order). build_ok full_machine b"
    by code_simp
  have 2: "(''armhf'', Goal_all, no_vars) \<in> set (attempted host_only_machine table_order)"
    by (simp add: attempted_def)
  have 3: "\<not> build_ok host_only_machine (''armhf'', Goal_all, no_vars)"
    by code_simp
  note a = exit_status_reflects_failures [of full_machine table_order]
  note b = exit_status_reflects_failures [of host_only_machine table_order]
  from a 1 have 4: "exit_status (test_build full_machine table_order) = 0" by blast
  from b 2 3 have 5: "exit_status (test_build host_only_machine table_order) \<noteq> 0
      \<and> Echo (''    - '' @ fst (''armhf'', Goal_all, no_vars))
          \<in> set (summary (run_builds host_only_machine table_order))"
    by blast
  from 1 have 6: "list_all (build_ok full_machine) (attempted full_machine table_order)"
    by (simp add: list_all_iff)
  show ?thesis using 6 2 3 4 5 by simp
qed

section \<open>Properties of the deploy and debug orchestrator\<close>

lemma param_Inr: "param args n message = Inr x \<Longrightarrow> 0 < n \<and> n \<le> length args \<and> x = args ! (n - 1) \<and> x \<noteq> []"
  by (auto simp: param_def split: if_splits)

lemma parse_args_Inr:
  assumes "parse_args args = Inr a"
  shows "6 \<le> length args" and "BINARY a = args ! 2" and "BINARY a = artifact_path args"
proof -
  from assms obtain ip port binary dir user pass where
    p: "param args 3 ''Error: BINARY name is required'' = Inr binary"
       "param args 6 ''Error: PASS is required'' = Inr pass"
    and a: "a = \<lparr>DEST_IP = ip, DEBUG_PORT = port, BINARY = binary, DEST_DIR = dir,
             USER = user, PASS = pass\<rparr>"
    by (auto simp: parse_args_def split: sum.splits)
  from p(2) show len: "6 \<le> length args" using param_Inr by blast
  from p(1) a show b: "BINARY a = args ! 2" using param_Inr [of args 3] by fastforce
  from len b show "BINARY a = artifact_path args" by (simp add: artifact_path_def)
qed

text \<open>
  C4: for every invocation whose local artifact path (the third argument) is not a file,
  the orchestrator exits with a nonzero status and runs no remote command; when the six
  arguments are there, it prints the two messages about the missing binary, exits with
  status 1 and does nothing else.
\<close>

theorem missing_artifact_aborts:
  assumes "\<not> regular_file m (artifact_path args)"
  shows "fst (deploy m args) \<noteq> 0 \<and> remote_actions (snd (deploy m args)) = []
       \<and> (\<forall>a. parse_args args = Inr a \<longrightarrow>
            deploy m args =
              (1, [Say (deploy_log_error (''Binary file '' @ [quote] @ BINARY a @ [quote]
                          @ '' not found!'')),
                   Say (log_info (''Run '' @ [quote] @ ''make'' @ [quote]
                          @ '' first to build the binary.''))]))"
proof (cases "parse_args args")
  case (Inl e)
  then show ?thesis by (simp add: deploy_def remote_actions_def)
next
  case (Inr a)
  with assms have "\<not> regular_file m (BINARY a)" by (simp add: parse_args_Inr(3))
  with Inr show ?thesis by (simp add: deploy_def remote_actions_def)
qed

text \<open>C4 for the example invocation on a machine where no path is a file.\<close>

theorem missing_artifact_aborts_witness:
  "\<not> regular_file host_only_machine (artifact_path deploy_example_args)
   \<and> fst (deploy host_only_machine deploy_example_args) = 1
   \<and> remote_actions (snd (deploy host_only_machine deploy_example_args)) = []"
proof -
  have a: "\<not> regular_file host_only_machine (artifact_path deploy_example_args)"
    by (simp add: host_only_machine_def no_file_def)
  have b: "parse_args deploy_example_args = Inr \<lparr>DEST_IP = ''192.168.1.100'', DEBUG_PORT = ''6666'',
     BINARY = ''firmware.bin'', DEST_DIR = ''/home/debian'', USER = ''debian'', PASS = ''password''\<rparr>"
    by (simp add: parse_args_def param_def deploy_example_args_def)
  note t = missing_artifact_aborts [OF a]
  from t b have "fst (deploy host_only_machine deploy_example_args) = 1" by simp
  with a t show ?thesis by blast
qed


lemma sh_exec_status_upd:
  "argv \<noteq> argv' \<Longrightarrow> sh_exec (m\<lparr>status := (status m)(argv' := st)\<rparr>) argv = sh_exec m argv"
  by (simp add: sh_exec_def command_v_def split: list.splits)

lemma remote_cmds_distinct:
  "scp_cmd a \<noteq> cleanup_cmd a" "chmod_cmd a \<noteq> cleanup_cmd a" "gdbserver_cmd a \<noteq> cleanup_cmd a"
  by (simp_all add: scp_cmd_def cleanup_cmd_def chmod_cmd_def gdbserver_cmd_def)

lemma errexit_remote_steps:
  "errexit m 0 (remote_steps a) =
     (if sh_exec m (scp_cmd a) \<noteq> 0
      then (sh_exec m (scp_cmd a),
            [Say (log_info (''Deploying to '' @ USER a @ ''@'' @ DEST_IP a @ '':'' @ DEST_DIR a
               @ ''/'' @ BINARY a)),
             Say (log_info ''Cleaning up previous deployment...''),
             Exec (cleanup_cmd a),
             Say (log_info ''Uploading binary...''),
             Exec (scp_cmd a)])
      else if sh_exec m (chmod_cmd a) \<noteq> 0
      then (sh_exec m (chmod_cmd a),
            [Say (log_info (''Deploying to '' @ USER a @ ''@'' @ DEST_IP a @ '':'' @ DEST_DIR a
               @ ''/'' @ BINARY a)),
             Say (log_info ''Cleaning up previous deployment...''),
             Exec (cleanup_cmd a),
             Say (log_info ''Uploading binary...''),
             Exec (scp_cmd a),
             Exec (chmod_cmd a)])
      else (sh_exec m (gdbserver_cmd a),
            [Say (log_info (''Deploying to '' @ USER a @ ''@'' @ DEST_IP a @ '':'' @ DEST_DIR a
               @ ''/'' @ BINARY a)),
             Say (log_info ''Cleaning up previous deployment...''),
             Exec (cleanup_cmd a),
             Say (log_info ''Uploading binary...''),
             Exec (scp_cmd a),
             Exec (chmod_cmd a),
             Say (log_info (''Starting gdbserver on '' @ DEST_IP a @ '':'' @ DEBUG_PORT a @ ''...'')),
             Exec (gdbserver_cmd a)]))"
  by (simp add: remote_steps_def)

lemma deploy_remote:
  assumes "parse_args args = Inr a" "regular_file m (BINARY a)" "command_v m ''sshpass''"
  shows "deploy m args = errexit m 0 (remote_steps a)"
  using assms by (simp add: deploy_def)

text \<open>
  C5: in every run that passes the local checks, the remote commands start with the
  cleanup followed by the transfer, and the whole run is the same whatever status the
  cleanup ends with. The commands run in the order cleanup, transfer, permission
  adjustment, debug-server launch; a failing transfer or permission adjustment ends the run
  there, with the later commands not run, and the run's status is that of the failing
  command (of the debug-server launch when none before it fails), so it is nonzero
  whenever a step after the cleanup fails.
\<close>

theorem cleanup_tolerated_then_fatal_steps:
  assumes "parse_args args = Inr a" and "regular_file m (BINARY a)" and "command_v m ''sshpass''"
  shows "take 2 (remote_actions (snd (deploy m args))) = [cleanup_cmd a, scp_cmd a]
       \<and> deploy (m\<lparr>status := (status m)(cleanup_cmd a := st)\<rparr>) args = deploy m args
       \<and> remote_actions (snd (deploy m args)) =
           (if sh_exec m (scp_cmd a) \<noteq> 0 then [cleanup_cmd a, scp_cmd a]
            else if sh_exec m (chmod_cmd a) \<noteq> 0 then [cleanup_cmd a, scp_cmd a, chmod_cmd a]
            else [cleanup_cmd a, scp_cmd a, chmod_cmd a, gdbserver_cmd a])
       \<and> fst (deploy m args) =
           (if sh_exec m (scp_cmd a) \<noteq> 0 then sh_exec m (scp_cmd a)
            else if sh_exec m (chmod_cmd a) \<noteq> 0 then sh_exec m (chmod_cmd a)
            else sh_exec m (gdbserver_cmd a))
       \<and> (sh_exec m (scp_cmd a) \<noteq> 0 \<or> sh_exec m (chmod_cmd a) \<noteq> 0 \<or> sh_exec m (gdbserver_cmd a) \<noteq> 0
            \<longrightarrow> fst (deploy m args) \<noteq> 0)"
proof -
  let ?m = "m\<lparr>status := (status m)(cleanup_cmd a := st)\<rparr>"
  have d: "deploy m args = errexit m 0 (remote_steps a)"
    using assms by (rule deploy_remote)
  have "regular_file ?m (BINARY a)" "command_v ?m ''sshpass''"
    using assms(2,3) by (simp_all add: command_v_def)
  with assms(1) have d': "deploy ?m args = errexit ?m 0 (remote_steps a)"
    by (rule deploy_remote)
  have same: "errexit ?m 0 (remote_steps a) = errexit m 0 (remote_steps a)"
    unfolding errexit_remote_steps
    by (simp only: sh_exec_status_upd [OF remote_cmds_distinct(1)]
        sh_exec_status_upd [OF remote_cmds_distinct(2)] sh_exec_status_upd [OF remote_cmds_distinct(3)])
  show ?thesis
    unfolding d' same unfolding d errexit_remote_steps
    by (simp add: remote_actions_def)
qed

text \<open>C5 for the example invocation on the machine whose cleanup command fails.\<close>

theorem cleanup_tolerated_then_fatal_steps_witness:
  "parse_args deploy_example_args = Inr deploy_example
   \<and> regular_file deploy_machine (BINARY deploy_example)
   \<and> command_v deploy_machine ''sshpass''
   \<and> sh_exec deploy_machine (cleanup_cmd deploy_example) = 255
   \<and> remote_actions (snd (deploy deploy_machine deploy_example_args)) =
       [cleanup_cmd deploy_example, scp_cmd deploy_example, chmod_cmd deploy_example,
        gdbserver_cmd deploy_example]
   \<and> fst (deploy deploy_machine deploy_example_args) = 0
   \<and> regular_file offline_machine (BINARY deploy_example)
   \<and> command_v offline_machine ''sshpass''
   \<and> sh_exec offline_machine (scp_cmd deploy_example) = 1
   \<and> remote_actions (snd (deploy offline_machine deploy_example_args)) =
       [cleanup_cmd deploy_example, scp_cmd deploy_example]
   \<and> fst (deploy offline_machine deploy_example_args) = 1"
proof -
  have a: "parse_args deploy_example_args = Inr deploy_example"
    by (simp add: parse_args_def param_def deploy_example_args_def deploy_example_def)
  have b: "regular_file deploy_machine (BINARY deploy_example)"
    by (simp add: deploy_machine_def deploy_example_def is_firmware_def)
  have c: "command_v deploy_machine ''sshpass''"
    by (simp add: command_v_def deploy_machine_def)
  have s1: "sh_exec deploy_machine (cleanup_cmd deploy_example) = 255"
    by code_simp
  have s2: "sh_exec deploy_machine (scp_cmd deploy_example) = 0"
    by code_simp
  have s3: "sh_exec deploy_machine (chmod_cmd deploy_example) = 0"
    by code_simp
  have s4: "sh_exec deploy_machine (gdbserver_cmd deploy_example) = 0"
    by code_simp
  have b': "regular_file offline_machine (BINARY deploy_example)"
    by (simp add: offline_machine_def deploy_example_def is_firmware_def)
  have c': "command_v offline_machine ''sshpass''"
    by (simp add: command_v_def offline_machine_def)
  have s5: "sh_exec offline_machine (scp_cmd deploy_example) = 1"
    by code_simp
  note t = cleanup_tolerated_then_fatal_steps [OF a b c]
  note t' = cleanup_tolerated_then_fatal_steps [OF a b' c']
  have u: "remote_actions (snd (deploy deploy_machine deploy_example_args)) =
       [cleanup_cmd deploy_example, scp_cmd deploy_example, chmod_cmd deploy_example,
        gdbserver_cmd deploy_example]
     \<and> fst (deploy deploy_machine deploy_example_args) = 0"
    using t s2 s3 s4 by simp
  have u': "remote_actions (snd (deploy offline_machine deploy_example_args)) =
       [cleanup_cmd deploy_example, scp_cmd deploy_example]
     \<and> fst (deploy offline_machine deploy_example_args) = 1"
    using t' s5 by simp
  show ?thesis using a b c s1 u b' c' s5 u' by blast
qed

section \<open>Properties of the sample program\<close>

lemma upt_0_Suc: "[0..<Suc n] = 0 # map Suc [0..<n]"
  by (simp add: upt_conv_Cons map_Suc_upt del: upt_Suc)

lemma mainLoop_while_run:
  "(\<forall>j<n. g (k + j)) \<Longrightarrow> \<not> g (k + n) \<Longrightarrow> c + int n \<le> INT_MAX \<Longrightarrow>
     mainLoop_while d g k c tr =
       Inr (c + int n, tr @ concat (map (\<lambda>j. loop_body d (c + int j)) [0..<n]))"
proof (induction n arbitrary: k c tr)
  case 0
  then show ?case by (simp add: mainLoop_while.simps [of d g k c tr])
next
  case (Suc n)
  from Suc.prems(1) have gk: "g k" by force
  from Suc.prems(3) have c: "\<not> INT_MAX \<le> c" by simp
  have "\<forall>j<n. g (Suc k + j)" using Suc.prems(1) by force
  moreover have "\<not> g (Suc k + n)" using Suc.prems(2) by simp
  moreover have "(c + 1) + int n \<le> INT_MAX" using Suc.prems(3) by simp
  ultimately have "mainLoop_while d g (Suc k) (c + 1) (tr @ loop_body d c) =
      Inr ((c + 1) + int n, (tr @ loop_body d c) @ concat (map (\<lambda>j. loop_body d ((c + 1) + int j)) [0..<n]))"
    by (rule Suc.IH)
  moreover have "concat (map (\<lambda>j. loop_body d (c + int j)) [0..<Suc n]) =
      loop_body d c @ concat (map (\<lambda>j. loop_body d ((c + 1) + int j)) [0..<n])"
    unfolding upt_0_Suc by (simp add: comp_def add.assoc)
  ultimately show ?case
    using gk c by (simp add: mainLoop_while.simps [of d g k c tr] add.assoc)
qed

lemma shown_loop_body:
  "shown (main_level debug) (loop_body debug c) =
     (if debug then [Log_call LVL_DEBUG (''Counter: '' @ dec_int c)]
      else if c mod 10 = 0
      then [Log_call LVL_INFO (''Counter: '' @ dec_int c @ '' (release mode - showing every 10th)'')]
      else [])
     @ [Usleep (500 * 1000)]"
  by (simp add: shown_def loop_body_def main_level_def LVL_TRACE_def LVL_DEBUG_def LVL_INFO_def
      LOOP_DELAY_US_def)

text \<open>
  C8, as stated, fails: in a run of one iteration the counter is logged before the sleep,
  not after it.
\<close>

theorem log_before_sleep_counterexample:
  "mainLoop True (signal_during 1) =
     Inr (1, [Log_call LVL_INFO ''Starting main loop (Ctrl+C to exit)...'',
              Log_call LVL_DEBUG ''Counter: 0'',
              Usleep 500000,
              Log_call LVL_INFO ''Main loop exited after 1 iterations''])
   \<and> sleep_then_log_run True 1 =
       [Log_call LVL_INFO ''Starting main loop (Ctrl+C to exit)...'',
        Usleep 500000,
        Log_call LVL_DEBUG ''Counter: 0'',
        Log_call LVL_INFO ''Main loop exited after 1 iterations'']"
proof -
  have "mainLoop_while True (signal_during 1) 0 0
          [Log_call LVL_INFO ''Starting main loop (Ctrl+C to exit)...''] =
        Inr (0 + int 1, [Log_call LVL_INFO ''Starting main loop (Ctrl+C to exit)...'']
          @ concat (map (\<lambda>j. loop_body True (0 + int j)) [0..<1]))"
    by (intro mainLoop_while_run) (simp_all add: signal_during_def INT_MAX_def)
  then show ?thesis
    by (simp add: mainLoop_def loop_body_def sleep_then_log_run_def sleep_then_log_def
        dec_int_def dec_nat.simps digit_char_def LOOP_DELAY_US_def)
qed

text \<open>
  C8, amended: if the loop condition finds the program running \<open>n\<close> times and then finds
  that the signal has arrived (\<open>n\<close> within the range of \<^verbatim>\<open>int\<close>), the loop makes exactly \<open>n\<close>
  iterations, reading the flag once per iteration, then exits and reports the count \<open>n\<close>. Each iteration first logs the
  counter and then sleeps the fixed interval of 500000 microseconds; with the threshold
  that \<^verbatim>\<open>main\<close> sets, the counter line appears in every iteration in a debug build and in
  every tenth iteration (counter divisible by 10) otherwise, and nothing else appears.
\<close>

theorem mainLoop_runs_until_flag:
  assumes "\<forall>k<n. g_running k" and "\<not> g_running n" and "int n \<le> INT_MAX"
  shows "mainLoop debug g_running =
           Inr (int n,
                Log_call LVL_INFO ''Starting main loop (Ctrl+C to exit)...''
                # concat (map (\<lambda>i. loop_body debug (int i)) [0..<n])
                @ [Log_call LVL_INFO (''Main loop exited after '' @ dec_int (int n) @ '' iterations'')])
       \<and> (\<forall>c. shown (main_level debug) (loop_body debug c) =
            (if debug then [Log_call LVL_DEBUG (''Counter: '' @ dec_int c)]
             else if c mod 10 = 0
             then [Log_call LVL_INFO (''Counter: '' @ dec_int c
                     @ '' (release mode - showing every 10th)'')]
             else [])
            @ [Usleep (500 * 1000)])"
proof -
  have "mainLoop_while debug g_running 0 0 [Log_call LVL_INFO ''Starting main loop (Ctrl+C to exit)...''] =
      Inr (0 + int n, [Log_call LVL_INFO ''Starting main loop (Ctrl+C to exit)...'']
        @ concat (map (\<lambda>j. loop_body debug (0 + int j)) [0..<n]))"
    using assms by (intro mainLoop_while_run) simp_all
  then show ?thesis
    by (simp add: mainLoop_def shown_loop_body)
qed

text \<open>The amended C8 for a release build whose flag is cleared during the eleventh iteration.\<close>

theorem mainLoop_runs_until_flag_witness:
  "signal_during 11 0 \<and> signal_during 11 10 \<and> \<not> signal_during 11 11 \<and> int 11 \<le> INT_MAX
   \<and> mainLoop False (signal_during 11) =
       Inr (11,
         [Log_call LVL_INFO ''Starting main loop (Ctrl+C to exit)...'',
          Log_call LVL_INFO ''Counter: 0 (release mode - showing every 10th)'',
          Usleep 500000, Usleep 500000, Usleep 500000, Usleep 500000, Usleep 500000,
          Usleep 500000, Usleep 500000, Usleep 500000, Usleep 500000, Usleep 500000,
          Log_call LVL_INFO ''Counter: 10 (release mode - showing every 10th)'',
          Usleep 500000,
          Log_call LVL_INFO ''Main loop exited after 11 iterations''])"
proof -
  have a: "\<forall>k<11. signal_during 11 k" by (simp add: signal_during_def)
  have b: "\<not> signal_during 11 11" by (simp add: signal_during_def)
  have c: "int 11 \<le> INT_MAX" by (simp add: INT_MAX_def)
  note t = mainLoop_runs_until_flag [OF a b c, of False]
  have e0: "[0..<11] = [0, 1, 2, 3, 4, 5, 6, 7, 8, 9, 10 :: nat]"
    by (simp add: upt_rec)
  have e1: "dec_int 0 = ''0''" "dec_int 10 = ''10''" "dec_int 11 = ''11''"
    by (simp_all add: dec_int_def dec_nat.simps digit_char_def)
  have d: "Log_call LVL_INFO ''Starting main loop (Ctrl+C to exit)...''
                # concat (map (\<lambda>i. loop_body False (int i)) [0..<11])
                @ [Log_call LVL_INFO (''Main loop exited after '' @ dec_int (int 11) @ '' iterations'')]
     = [Log_call LVL_INFO ''Starting main loop (Ctrl+C to exit)...'',
          Log_call LVL_INFO ''Counter: 0 (release mode - showing every 10th)'',
          Usleep 500000, Usleep 500000, Usleep 500000, Usleep 500000, Usleep 500000,
          Usleep 500000, Usleep 500000, Usleep 500000, Usleep 500000, Usleep 500000,
          Log_call LVL_INFO ''Counter: 10 (release mode - showing every 10th)'',
          Usleep 500000,
          Log_call LVL_INFO ''Main loop exited after 11 iterations'']"
    using e1 unfolding e0 by (simp add: loop_body_def LOOP_DELAY_US_def)
  have f: "signal_during 11 0 \<and> signal_during 11 10"
    by (simp add: signal_during_def)
  from t have g: "mainLoop False (signal_during 11) =
       Inr (11,
         [Log_call LVL_INFO ''Starting main loop (Ctrl+C to exit)...'',
          Log_call LVL_INFO ''Counter: 0 (release mode - showing every 10th)'',
          Usleep 500000, Usleep 500000, Usleep 500000, Usleep 500000, Usleep 500000,
          Usleep 500000, Usleep 500000, Usleep 500000, Usleep 500000, Usleep 500000,
          Log_call LVL_INFO ''Counter: 10 (release mode - showing every 10th)'',
          Usleep 500000,
          Log_call LVL_INFO ''Main loop exited after 11 iterations''])"
    unfolding d by simp
  show ?thesis using f b c g by blast
qed

end
